theory Spec2Isabelle
  imports Main "HOL-Library.AList" "HOL-Library.Char_ord" "HOL-Library.List_Lexorder"
begin

section \<open>Python values, strings and dictionaries\<close>

text \<open>
  The two scripts (\<^verbatim>\<open>app.py\<close>, the multi-aircraft batch variant, and \<^verbatim>\<open>app.py.py\<close>, the
  single-row variant) handle rows that are Python dictionaries from column names to
  strings, numbers and \<^verbatim>\<open>None\<close>. A Python \<^verbatim>\<open>str\<close> is modelled as the list of its code
  points, for code points below 256. The type \<open>'f\<close> stands for Python's floats; the
  scripts never compute with a float, they only obtain one from the builtin \<^verbatim>\<open>float\<close>
  or from a widget and store it.
\<close>

datatype 'f pyval = PNone | PBool bool | PInt int | PFloat 'f | PStr string

text \<open>
  A dictionary keeps its keys in insertion order: an association list, read with
  \<open>map_of\<close> and written with \<open>AList.update\<close> (which replaces the value of a key
  that is present, in place, and appends a new key at the end).
\<close>

type_synonym 'f pydict = "(string \<times> 'f pyval) list"

text \<open>
  Exceptions are values. \<open>StopException\<close> is what \<^verbatim>\<open>st.stop()\<close> raises; it derives from
  \<^verbatim>\<open>BaseException\<close>, so that \<^verbatim>\<open>except Exception\<close> does not catch it. Every other
  constructor is an \<^verbatim>\<open>Exception\<close>.
\<close>

datatype error =
    KeyError string
  | AttributeError string
  | NameError string
  | ValueError string
  | IndexError
  | PredictError
  | StopException

definition contains :: "'f pydict \<Rightarrow> string \<Rightarrow> bool" where
  "contains d k = (k \<in> set (map fst d))"

definition getitem :: "'f pydict \<Rightarrow> string \<Rightarrow> error + 'f pyval" where
  "getitem d k = (case map_of d k of None \<Rightarrow> Inl (KeyError k) | Some v \<Rightarrow> Inr v)"

definition setitem :: "'f pydict \<Rightarrow> string \<Rightarrow> 'f pyval \<Rightarrow> 'f pydict" where
  "setitem d k v = AList.update k v d"

definition bindE :: "error + 'a \<Rightarrow> ('a \<Rightarrow> error + 'b) \<Rightarrow> error + 'b" where
  "bindE m f = (case m of Inl e \<Rightarrow> Inl e | Inr x \<Rightarrow> f x)"

fun foldE :: "('s \<Rightarrow> 'a \<Rightarrow> error + 's) \<Rightarrow> 's \<Rightarrow> 'a list \<Rightarrow> error + 's" where
  "foldE f s [] = Inr s"
| "foldE f s (x # xs) = bindE (f s x) (\<lambda>s'. foldE f s' xs)"

fun mapE :: "('a \<Rightarrow> error + 'b) \<Rightarrow> 'a list \<Rightarrow> error + 'b list" where
  "mapE f [] = Inr []"
| "mapE f (x # xs) = bindE (f x) (\<lambda>y. bindE (mapE f xs) (\<lambda>ys. Inr (y # ys)))"

text \<open>\<^verbatim>\<open>try: m except Exception: h\<close>: the handler runs on every error but \<open>StopException\<close>.\<close>

definition try_except :: "error + 'a \<Rightarrow> (error \<Rightarrow> error + 'a) \<Rightarrow> error + 'a" where
  "try_except m h =
     (case m of Inl e \<Rightarrow> (if e = StopException then Inl e else h e) | Inr x \<Rightarrow> Inr x)"

text \<open>\<^verbatim>\<open>str.isspace\<close> on the code points below 256, \<^verbatim>\<open>s.replace("%", "")\<close> and
  \<^verbatim>\<open>s.strip()\<close>.\<close>

definition py_isspace :: "char \<Rightarrow> bool" where
  "py_isspace c = ((of_char c :: nat) \<in> {9, 10, 11, 12, 13, 28, 29, 30, 31, 32, 133, 160})"

definition replace_percent :: "string \<Rightarrow> string" where
  "replace_percent s = filter (\<lambda>c. c \<noteq> CHR ''%'') s"

definition strip :: "string \<Rightarrow> string" where
  "strip s = rev (dropWhile py_isspace (rev (dropWhile py_isspace s)))"

text \<open>The distinct elements of a list in the order of their first occurrence: the order
  of \<^verbatim>\<open>Series.unique()\<close> and of the columns of a table built from dictionaries.\<close>

fun uniq_acc :: "'a list \<Rightarrow> 'a list \<Rightarrow> 'a list" where
  "uniq_acc seen [] = []"
| "uniq_acc seen (x # xs) =
     (if x \<in> set seen then uniq_acc seen xs else x # uniq_acc (x # seen) xs)"

definition unique :: "'a list \<Rightarrow> 'a list" where
  "unique xs = uniq_acc [] xs"

section \<open>Numeric coercion (\<^verbatim>\<open>coerce_numeric\<close>, app.py lines 171-181)\<close>

text \<open>
  The builtin \<^verbatim>\<open>float\<close> is a parameter \<open>fl\<close>: \<open>fl v = Some x\<close> when \<^verbatim>\<open>float(v)\<close>
  returns the float \<open>x\<close>, and \<open>fl v = None\<close> when it raises (ValueError, TypeError or
  OverflowError, all of which \<^verbatim>\<open>except Exception\<close> catches).
\<close>

definition GROSS_WT :: string where "GROSS_WT = ''Gross Wt. (lbs)''"
definition SATURATION :: string where "SATURATION = ''Degree of saturation''"
definition CBR :: string where "CBR = ''CBR''"

definition numeric_keys :: "string list" where
  "numeric_keys = [GROSS_WT, SATURATION, CBR]"

text \<open>Lines 173-174: the percent signs and the surrounding whitespace of a saturation
  value that is a string are removed, and the result is stored back.\<close>

definition strip_saturation :: "'f pydict \<Rightarrow> error + 'f pydict" where
  "strip_saturation dd =
     (if contains dd SATURATION then
        bindE (getitem dd SATURATION) (\<lambda>v.
          case v of
            PStr _ \<Rightarrow>
              bindE (getitem dd SATURATION) (\<lambda>v'.
                case v' of
                  PStr s \<Rightarrow> Inr (setitem dd SATURATION (PStr (strip (replace_percent s))))
                | _ \<Rightarrow> Inl (AttributeError ''replace''))
          | _ \<Rightarrow> Inr dd)
      else Inr dd)"

text \<open>Lines 176-180, the body of the loop for one key \<open>k\<close>: the test
  \<^verbatim>\<open>k in dd and dd[k] not in (None, "")\<close>, then \<^verbatim>\<open>dd[k] = float(dd[k])\<close> under
  \<^verbatim>\<open>try ... except Exception: pass\<close>.\<close>

definition coerce_key :: "('f pyval \<Rightarrow> 'f option) \<Rightarrow> 'f pydict \<Rightarrow> string \<Rightarrow> error + 'f pydict" where
  "coerce_key fl dd k =
     (if contains dd k then
        bindE (getitem dd k) (\<lambda>v.
          if v \<noteq> PNone \<and> v \<noteq> PStr '''' then
            bindE (getitem dd k) (\<lambda>v'.
              case fl v' of
                Some x \<Rightarrow> Inr (setitem dd k (PFloat x))
              | None \<Rightarrow> Inr dd)
          else Inr dd)
      else Inr dd)"

definition coerce_numeric :: "('f pyval \<Rightarrow> 'f option) \<Rightarrow> 'f pydict \<Rightarrow> error + 'f pydict" where
  "coerce_numeric fl d =
     bindE (strip_saturation d) (\<lambda>dd. foldE (coerce_key fl) dd numeric_keys)"

text \<open>The value a numeric field holds once lines 173-174 have run.\<close>

definition stripped_value :: "string \<Rightarrow> 'f pyval \<Rightarrow> 'f pyval" where
  "stripped_value k v =
     (case v of
        PStr s \<Rightarrow> if k = SATURATION then PStr (strip (replace_percent s)) else v
      | _ \<Rightarrow> v)"

text \<open>What lines 176-180 do to the value of one numeric field.\<close>

definition float_step :: "('f pyval \<Rightarrow> 'f option) \<Rightarrow> 'f pyval \<Rightarrow> 'f pyval" where
  "float_step fl w =
     (if w = PNone \<or> w = PStr '''' then w
      else (case fl w of Some x \<Rightarrow> PFloat x | None \<Rightarrow> w))"

text \<open>The value a numeric field holds once the loop has run.\<close>

definition coerced_value :: "('f pyval \<Rightarrow> 'f option) \<Rightarrow> string \<Rightarrow> 'f pyval \<Rightarrow> 'f pyval" where
  "coerced_value fl k v = float_step fl (stripped_value k v)"

section \<open>Tables (\<^verbatim>\<open>pd.DataFrame\<close>, \<^verbatim>\<open>reindex\<close>)\<close>

text \<open>
  A table has a list of column labels and, for each row, one cell per column; a cell
  is \<open>None\<close> when the value is missing (pandas' NaN). \<^verbatim>\<open>pd.DataFrame(rows)\<close> on a list
  of dictionaries takes as columns the keys of the dictionaries in the order of their
  first occurrence. \<^verbatim>\<open>reindex(columns=cols)\<close> gives the table the labels \<open>cols\<close>: a label
  of the old table keeps its cells, any other label gets missing cells; pandas refuses
  to reindex a table whose own labels repeat.
\<close>

record 'f table =
  columns :: "string list"
  cells :: "'f pyval option list list"

definition DataFrame :: "'f pydict list \<Rightarrow> 'f table" where
  "DataFrame ds =
     (let cols = unique (concat (map (map fst) ds))
      in \<lparr>columns = cols, cells = map (\<lambda>d. map (map_of d) cols) ds\<rparr>)"

definition cell_at :: "string list \<Rightarrow> 'f pyval option list \<Rightarrow> string \<Rightarrow> 'f pyval option" where
  "cell_at cols r c = (case map_of (zip cols r) c of None \<Rightarrow> None | Some v \<Rightarrow> v)"

definition reindex :: "'f table \<Rightarrow> string list \<Rightarrow> error + 'f table" where
  "reindex t cols =
     (if distinct (columns t)
      then Inr \<lparr>columns = cols, cells = map (\<lambda>r. map (cell_at (columns t) r) cols) (cells t)\<rparr>
      else Inl (ValueError ''cannot reindex on an axis with duplicate labels''))"

section \<open>The pipeline and its schema (\<^verbatim>\<open>get_expected_input_columns\<close>, lines 13-22)\<close>

text \<open>
  The loaded pipeline is opaque to the scripts but for its named steps and its two
  inference methods. A step is a fitted column transformer, with its list
  \<^verbatim>\<open>transformers_\<close> of triples (name, transformer, column names), or another estimator,
  which has no such attribute; the flag of an estimator says whether it has a method
  \<^verbatim>\<open>predict_proba\<close>. The transformers are of an arbitrary type \<open>'t\<close>.
\<close>

datatype 't step =
    ColumnTransformer "(string \<times> 't \<times> string list) list"
  | Estimator bool

record ('t, 'f) pipeline =
  named_steps :: "(string \<times> 't step) list"
  predict :: "'f table \<Rightarrow> error + int list"
  predict_proba :: "'f table \<Rightarrow> error + 'f list"

definition named_step :: "('t, 'f) pipeline \<Rightarrow> string \<Rightarrow> error + 't step" where
  "named_step p name =
     (case map_of (named_steps p) name of None \<Rightarrow> Inl (KeyError name) | Some s \<Rightarrow> Inr s)"

definition transformers :: "'t step \<Rightarrow> error + (string \<times> 't \<times> string list) list" where
  "transformers s =
     (case s of ColumnTransformer ts \<Rightarrow> Inr ts | Estimator _ \<Rightarrow> Inl (AttributeError ''transformers_''))"

text \<open>The body of the loop of lines 17-21, on the pair (num_cols, cat_cols).\<close>

definition schema_step ::
  "string \<times> 't \<times> string list \<Rightarrow> string list \<times> string list \<Rightarrow> string list \<times> string list" where
  "schema_step tr acc =
     (case tr of (name, transformer, cols) \<Rightarrow>
        (case acc of (num_cols, cat_cols) \<Rightarrow>
           if name = ''num'' then (cols, cat_cols)
           else if name = ''cat'' then (num_cols, cols)
           else (num_cols, cat_cols)))"

definition get_expected_input_columns ::
  "('t, 'f) pipeline \<Rightarrow> error + (string list \<times> string list)" where
  "get_expected_input_columns p =
     bindE (named_step p ''prep'') (\<lambda>prep.
     bindE (transformers prep) (\<lambda>ts.
       Inr (fold schema_step ts ([], []))))"

section \<open>Reconciliation of one row (\<^verbatim>\<open>build_input_df\<close>, app.py.py lines 46-60)\<close>

definition build_input_df ::
  "('f pyval \<Rightarrow> 'f option) \<Rightarrow> ('t, 'f) pipeline \<Rightarrow> 'f pydict \<Rightarrow> error + 'f table" where
  "build_input_df fl p row_dict =
     bindE (get_expected_input_columns p) (\<lambda>(num_cols, cat_cols).
     bindE (if contains row_dict ''Degree of saturation'' then
              bindE (getitem row_dict ''Degree of saturation'') (\<lambda>v.
                case v of
                  PStr _ \<Rightarrow>
                    bindE (getitem row_dict ''Degree of saturation'') (\<lambda>v'.
                      case v' of
                        PStr s \<Rightarrow>
                          Inr (setitem row_dict ''Degree of saturation''
                                 (PStr (strip (replace_percent s))))
                      | _ \<Rightarrow> Inl (AttributeError ''replace''))
                | _ \<Rightarrow> Inr row_dict)
            else Inr row_dict) (\<lambda>d.
     bindE (foldE (\<lambda>d k.
              if contains d k then
                bindE (getitem d k) (\<lambda>v.
                  if v \<noteq> PNone \<and> v \<noteq> PStr '''' then
                    bindE (getitem d k) (\<lambda>v'.
                      case fl v' of
                        Some x \<Rightarrow> Inr (setitem d k (PFloat x))
                      | None \<Rightarrow> Inr d)
                  else Inr d)
              else Inr d)
            d [''Gross Wt. (lbs)'', ''Degree of saturation'', ''CBR'']) (\<lambda>d.
       reindex (DataFrame [d]) (num_cols @ cat_cols))))"

section \<open>The batch script's Predict handler (app.py lines 154-223)\<close>

text \<open>
  What the user sees and what the pipeline is asked are events of the script run.
\<close>

datatype 'f event =
    Warning string
  | Stopped
  | PredictCall "'f table"
  | PredictProbaCall "'f table"
  | ResultsShown "string list" "'f list option" "'f table"
  | SuccessShown string
  | ProbabilityShown 'f
  | DebugShown "'f table"
  | ErrorShown error

definition AIRCRAFT :: string where "AIRCRAFT = ''Aircraft Name''"

text \<open>
  Lines 157-168, the row expansion. The result is the events of the step and either the
  rows or the exception that leaves the step.
\<close>

definition expand_rows ::
  "string list \<Rightarrow> string list \<Rightarrow> 'f pydict \<Rightarrow> 'f event list \<times> (error + 'f pydict list)" where
  "expand_rows cat_cols aircraft_selected row_base =
     (if AIRCRAFT \<in> set cat_cols then
        (if aircraft_selected = []
         then ([Warning ''Please select at least one aircraft.''], Inl StopException)
         else ([], Inr (map (\<lambda>ac. setitem row_base AIRCRAFT (PStr ac)) aircraft_selected)))
      else ([], Inr [row_base]))"

text \<open>
  The names bound in the module when line 191 runs: the four imports of lines 1-4, the
  three helper functions and the variables assigned on the way. A name that is neither
  among them nor a builtin raises \<^verbatim>\<open>NameError\<close>.
\<close>

definition app_globals :: "string list" where
  "app_globals =
     [''io'', ''joblib'', ''pd'', ''st'',
      ''get_expected_input_columns'', ''extract_choices_from_excel'', ''build_input_df'',
      ''up_model'', ''pipeline'', ''num_cols'', ''cat_cols'', ''choices'', ''up_excel'',
      ''row_base'', ''soil_val'', ''faa_cat_val'', ''aircraft_selected'', ''c'',
      ''rows'', ''ac'', ''d'', ''coerce_numeric'', ''inf_cols'', ''X'', ''pred'']"

definition lookup_global :: "string \<Rightarrow> error + unit" where
  "lookup_global name = (if name \<in> set app_globals then Inr () else Inl (NameError name))"

text \<open>\<^verbatim>\<open>numpy.where(pred == 1, "Overloaded", "Safe")\<close>, as numpy computes it.\<close>

definition numpy_where :: "int list \<Rightarrow> string list" where
  "numpy_where pred = map (\<lambda>l. if l = 1 then ''Overloaded'' else ''Safe'') pred"

text \<open>Line 191: the name \<^verbatim>\<open>np\<close> is looked up, then \<^verbatim>\<open>np.where\<close> is applied.\<close>

definition render_labels :: "int list \<Rightarrow> error + string list" where
  "render_labels pred = bindE (lookup_global ''np'') (\<lambda>_. Inr (numpy_where pred))"

text \<open>Lines 194-196: the probabilities, when the step named "model" has the method.\<close>

definition probabilities ::
  "('t, 'f) pipeline \<Rightarrow> 'f table \<Rightarrow> 'f event list \<times> (error + 'f list option)" where
  "probabilities p X =
     (case named_step p ''model'' of
        Inl e \<Rightarrow> ([], Inl e)
      | Inr (Estimator True) \<Rightarrow>
          ([PredictProbaCall X],
           (case predict_proba p X of Inl e \<Rightarrow> Inl e | Inr ps \<Rightarrow> Inr (Some ps)))
      | Inr _ \<Rightarrow> ([], Inr None))"

text \<open>
  Lines 186-220 after the rows are coerced. An exception ends the \<^verbatim>\<open>try\<close> block; the
  events before it have happened. The layout of the results table (lines 199-214) is
  not modelled beyond the labels, probabilities and input table it shows.
\<close>

definition infer ::
  "('t, 'f) pipeline \<Rightarrow> string list \<Rightarrow> string list \<Rightarrow> 'f pydict list \<Rightarrow>
   'f event list \<times> (error + unit)" where
  "infer p num_cols cat_cols rows =
     (case reindex (DataFrame rows) (num_cols @ cat_cols) of
        Inl e \<Rightarrow> ([], Inl e)
      | Inr X \<Rightarrow>
          (case predict p X of
             Inl e \<Rightarrow> ([PredictCall X], Inl e)
           | Inr pred \<Rightarrow>
               (case render_labels pred of
                  Inl e \<Rightarrow> ([PredictCall X], Inl e)
                | Inr labels \<Rightarrow>
                    (case probabilities p X of
                       (evs, Inl e) \<Rightarrow> (PredictCall X # evs, Inl e)
                     | (evs, Inr probs) \<Rightarrow>
                         (PredictCall X # evs @ [ResultsShown labels probs X, DebugShown X],
                          Inr ())))))"

text \<open>
  The handler: \<^verbatim>\<open>try: ... except Exception as e: st.error(...)\<close>. \<open>StopException\<close>
  passes through the handler and ends the script run.
\<close>

definition on_predict ::
  "('f pyval \<Rightarrow> 'f option) \<Rightarrow> ('t, 'f) pipeline \<Rightarrow> string list \<Rightarrow> string list \<Rightarrow>
   'f pydict \<Rightarrow> string list \<Rightarrow> 'f event list" where
  "on_predict fl p num_cols cat_cols row_base aircraft_selected =
     (case expand_rows cat_cols aircraft_selected row_base of
        (evs, Inl e) \<Rightarrow> evs @ [if e = StopException then Stopped else ErrorShown e]
      | (evs, Inr rows) \<Rightarrow>
          (case mapE (coerce_numeric fl) rows of
             Inl e \<Rightarrow> evs @ [if e = StopException then Stopped else ErrorShown e]
           | Inr rows' \<Rightarrow>
               (case infer p num_cols cat_cols rows' of
                  (evs', Inl e) \<Rightarrow>
                    evs @ evs' @ [if e = StopException then Stopped else ErrorShown e]
                | (evs', Inr _) \<Rightarrow> evs @ evs')))"

text \<open>The table the batch script sends to inference (lines 183-187).\<close>

definition reconcile ::
  "('f pyval \<Rightarrow> 'f option) \<Rightarrow> string list \<Rightarrow> string list \<Rightarrow> 'f pydict list \<Rightarrow> error + 'f table" where
  "reconcile fl num_cols cat_cols rows =
     bindE (mapE (coerce_numeric fl) rows) (\<lambda>rows'.
       reindex (DataFrame rows') (num_cols @ cat_cols))"

text \<open>The cell of a reconciled table for the input row \<open>d\<close> and the column \<open>c\<close>: the
  value of the field, coerced when it is a numeric one, or nothing when the row has no
  such field.\<close>

definition reconciled_cell :: "('f pyval \<Rightarrow> 'f option) \<Rightarrow> 'f pydict \<Rightarrow> string \<Rightarrow> 'f pyval option" where
  "reconciled_cell fl d c =
     (if c \<in> set numeric_keys then map_option (coerced_value fl c) (map_of d c)
      else map_of d c)"

section \<open>The single-row script's Predict handler (app.py.py lines 122-136)\<close>

definition first_label :: "int list \<Rightarrow> error + int" where
  "first_label pred = (case pred of [] \<Rightarrow> Inl IndexError | l # _ \<Rightarrow> Inr l)"

definition label_of :: "int \<Rightarrow> string" where
  "label_of pred = (if pred = 1 then ''Overload'' else ''Safe'')"

definition show_probability :: "('t, 'f) pipeline \<Rightarrow> 'f table \<Rightarrow> 'f event list" where
  "show_probability p X =
     PredictProbaCall X #
     (case predict_proba p X of
        Inr (prob # _) \<Rightarrow> [ProbabilityShown prob]
      | _ \<Rightarrow> [])"

definition on_predict_single ::
  "('f pyval \<Rightarrow> 'f option) \<Rightarrow> ('t, 'f) pipeline \<Rightarrow> 'f pydict \<Rightarrow> 'f event list" where
  "on_predict_single fl p row =
     (case build_input_df fl p row of
        Inl e \<Rightarrow> [ErrorShown e]
      | Inr X \<Rightarrow>
          PredictCall X #
          (case bindE (predict p X) first_label of
             Inl e \<Rightarrow> [ErrorShown e]
           | Inr pred \<Rightarrow>
               SuccessShown (label_of pred) # show_probability p X @ [DebugShown X]))"

section \<open>Dropdown choices (\<^verbatim>\<open>extract_choices_from_excel\<close>, lines 24-44)\<close>

text \<open>
  An uploaded file either is no readable workbook (\<open>None\<close>) or holds sheets by name, in
  order. A sheet, as \<^verbatim>\<open>pd.read_excel\<close> returns it, is a list of columns: a header value
  and the cells below it, a cell being \<open>None\<close> when it is empty (NaN). Python's \<^verbatim>\<open>str\<close>
  on a value is \<open>py_str\<close>, with the formatting of a float as a parameter \<open>fs\<close>.
\<close>

type_synonym 'f frame = "('f pyval \<times> 'f pyval option list) list"

type_synonym 'f workbook = "(string \<times> 'f frame) list"

fun digits :: "nat \<Rightarrow> string" where
  "digits n =
     (if n < 10 then [char_of (48 + n)]
      else digits (n div 10) @ [char_of (48 + n mod 10)])"

definition str_int :: "int \<Rightarrow> string" where
  "str_int i = (if i < 0 then CHR ''-'' # digits (nat (- i)) else digits (nat i))"

definition py_str :: "('f \<Rightarrow> string) \<Rightarrow> 'f pyval \<Rightarrow> string" where
  "py_str fs v =
     (case v of
        PNone \<Rightarrow> ''None''
      | PBool b \<Rightarrow> (if b then ''True'' else ''False'')
      | PInt i \<Rightarrow> str_int i
      | PFloat x \<Rightarrow> fs x
      | PStr s \<Rightarrow> s)"

definition read_excel_sheet :: "'f workbook option \<Rightarrow> string \<Rightarrow> error + 'f frame" where
  "read_excel_sheet file name =
     (case file of
        None \<Rightarrow> Inl (ValueError ''Excel file format cannot be determined'')
      | Some wb \<Rightarrow>
          (case map_of wb name of
             None \<Rightarrow> Inl (ValueError ''Worksheet not found'')
           | Some fr \<Rightarrow> Inr fr))"

definition read_excel_first :: "'f workbook option \<Rightarrow> error + 'f frame" where
  "read_excel_first file =
     (case file of
        None \<Rightarrow> Inl (ValueError ''Excel file format cannot be determined'')
      | Some [] \<Rightarrow> Inl IndexError
      | Some ((_, fr) # _) \<Rightarrow> Inr fr)"

text \<open>\<^verbatim>\<open>pd.Series(df[col])\<close>: the cells of the one column of that name. With several
  columns of that name the selection is two-dimensional and no series is built.\<close>

definition select_column ::
  "(string \<times> 'f pyval option list) list \<Rightarrow> string \<Rightarrow> error + 'f pyval option list" where
  "select_column df col =
     (case filter (\<lambda>hc. fst hc = col) df of
        [hc] \<Rightarrow> Inr (snd hc)
      | _ \<Rightarrow> Inl (ValueError ''Data must be 1-dimensional''))"

text \<open>\<^verbatim>\<open>dropna()\<close> removes the empty cells and \<^verbatim>\<open>None\<close>.\<close>

definition dropna :: "'f pyval option list \<Rightarrow> 'f pyval list" where
  "dropna ser = concat (map (\<lambda>c. case c of None \<Rightarrow> [] | Some PNone \<Rightarrow> [] | Some v \<Rightarrow> [v]) ser)"

definition target_columns :: "string list" where
  "target_columns = [''Aircraft Name'', ''Subgrade soil type'', ''Subgrade Categories (FAA)'']"

text \<open>Lines 41-42, the values of one column.\<close>

definition column_choices :: "('f \<Rightarrow> string) \<Rightarrow> 'f pyval option list \<Rightarrow> string list" where
  "column_choices fs ser =
     (let vals = map strip (map (py_str fs) (dropna ser))
      in sort (filter (\<lambda>v. v \<noteq> '''') (unique vals)))"

text \<open>Lines 40-43, the body of the loop for one target column.\<close>

definition choices_step ::
  "('f \<Rightarrow> string) \<Rightarrow> (string \<times> 'f pyval option list) list \<Rightarrow>
   (string \<times> string list) list \<Rightarrow> string \<Rightarrow> error + (string \<times> string list) list" where
  "choices_step fs df choices col =
     (if col \<in> set (map fst df) then
        bindE (select_column df col) (\<lambda>ser.
          Inr (AList.update col (column_choices fs ser) choices))
      else Inr choices)"

definition extract_choices_from_excel ::
  "('f \<Rightarrow> string) \<Rightarrow> 'f workbook option \<Rightarrow> error + (string \<times> string list) list" where
  "extract_choices_from_excel fs file =
     bindE (try_except (read_excel_sheet file ''data'') (\<lambda>_. read_excel_first file)) (\<lambda>df0.
       let df = map (\<lambda>(c, col_cells). (strip (py_str fs c), col_cells)) df0
       in foldE (choices_step fs df) [] target_columns)"

section \<open>A float builtin for concrete inputs\<close>

text \<open>
  For evaluation at concrete rows, \<open>float_sample\<close> is the builtin \<^verbatim>\<open>float\<close> on the values
  used below, with a float of integral value written as that integer: it converts
  numbers, booleans and strings of ASCII digits (with surrounding whitespace), and
  raises on \<^verbatim>\<open>None\<close> and on any other string, such as \<^verbatim>\<open>"abc"\<close>.
\<close>

text \<open>A fitted pipeline for evaluation: a column transformer with one numeric and one
  categorical column, and a classifier that answers \<open>[1, 0, 1]\<close>.\<close>

definition sample_pipeline :: "(unit, int) pipeline" where
  "sample_pipeline =
     \<lparr>named_steps =
        [(''prep'', ColumnTransformer [(''num'', (), [''CBR'']), (''cat'', (), [''Aircraft Name''])]),
         (''model'', Estimator True)],
      predict = (\<lambda>X. Inr [1, 0, 1]),
      predict_proba = (\<lambda>X. Inr [])\<rparr>"

text \<open>An uploaded workbook for evaluation: one sheet "data" with an untrimmed header, a
  repeated value, an empty cell and a blank string.\<close>

definition sample_frame :: "int frame" where
  "sample_frame =
     [(PStr '' Aircraft Name '',
         [Some (PStr ''B737''), None, Some (PStr '' A320''), Some (PStr ''B737''),
          Some (PStr ''  '')]),
      (PStr ''Other'', [Some (PInt 1)])]"

definition sample_workbook :: "int workbook option" where
  "sample_workbook = Some [(''data'', sample_frame)]"

text \<open>A readable workbook whose sheet has the headers "Aircraft Name" and
  " Aircraft Name", which line 37 trims to the same name, and no soil column.\<close>

definition duplicate_header_frame :: "int frame" where
  "duplicate_header_frame =
     [(PStr ''Aircraft Name'', [Some (PStr ''B737'')]),
      (PStr '' Aircraft Name'', [Some (PStr ''A320'')])]"

definition duplicate_header_workbook :: "int workbook option" where
  "duplicate_header_workbook = Some [(''data'', duplicate_header_frame)]"

text \<open>A fitted pipeline whose classifier has no method \<^verbatim>\<open>predict_proba\<close>.\<close>

definition sample_pipeline_no_proba :: "(unit, int) pipeline" where
  "sample_pipeline_no_proba =
     \<lparr>named_steps =
        [(''prep'', ColumnTransformer [(''num'', (), [''CBR'']), (''cat'', (), [''Aircraft Name''])]),
         (''model'', Estimator False)],
      predict = (\<lambda>X. Inr [1, 0, 1]),
      predict_proba = (\<lambda>X. Inl (AttributeError ''predict_proba''))\<rparr>"

definition is_digit :: "char \<Rightarrow> bool" where
  "is_digit c = (48 \<le> (of_char c :: nat) \<and> (of_char c :: nat) \<le> 57)"

definition digits_value :: "string \<Rightarrow> int" where
  "digits_value s = foldl (\<lambda>acc c. 10 * acc + (int (of_char c) - 48)) 0 s"

definition float_sample :: "int pyval \<Rightarrow> int option" where
  "float_sample v =
     (case v of
        PNone \<Rightarrow> None
      | PBool b \<Rightarrow> Some (if b then 1 else 0)
      | PInt i \<Rightarrow> Some i
      | PFloat x \<Rightarrow> Some x
      | PStr s \<Rightarrow>
          (let t = strip s
           in if t \<noteq> [] \<and> list_all is_digit t then Some (digits_value t) else None))"

section \<open>Facts about dictionaries and the coercion\<close>

lemma map_of_setitem: "map_of (setitem d k v) k' = (if k' = k then Some v else map_of d k')"
  by (simp add: setitem_def update_conv')

lemma keys_setitem: "k \<in> set (map fst d) \<Longrightarrow> map fst (setitem d k v) = map fst d"
  by (simp add: setitem_def update_keys)

lemma contains_map_of: "contains d k \<longleftrightarrow> map_of d k \<noteq> None"
  by (simp add: contains_def map_of_eq_None_iff)

lemma stripped_value_other: "k \<noteq> SATURATION \<Longrightarrow> stripped_value k v = v"
  by (cases v) (simp_all add: stripped_value_def)

lemma stripped_value_not_str: "\<forall>s. v \<noteq> PStr s \<Longrightarrow> stripped_value k v = v"
  by (cases v) (simp_all add: stripped_value_def)

lemma strip_saturation_result:
  "\<exists>dd. strip_saturation d = Inr dd \<and> map fst dd = map fst d \<and>
        (\<forall>k. map_of dd k = map_option (stripped_value k) (map_of d k))"
proof (cases "map_of d SATURATION")
  case None
  then have "strip_saturation d = Inr d"
    by (simp add: strip_saturation_def contains_map_of)
  moreover have "\<forall>k. map_of d k = map_option (stripped_value k) (map_of d k)"
  proof
    fix k show "map_of d k = map_option (stripped_value k) (map_of d k)"
      using None
      by (cases "k = SATURATION") (simp_all add: stripped_value_other option.map_ident_strong)
  qed
  ultimately show ?thesis by blast
next
  case (Some v)
  then have c: "contains d SATURATION" by (simp add: contains_map_of)
  then have kin: "SATURATION \<in> set (map fst d)" by (simp add: contains_def)
  have other: "k \<noteq> SATURATION \<Longrightarrow> map_of d k = map_option (stripped_value k) (map_of d k)" for k
    by (simp add: stripped_value_other option.map_ident_strong)
  show ?thesis
  proof (cases "\<exists>s. v = PStr s")
    case True
    then obtain s where v: "v = PStr s" by blast
    let ?dd = "setitem d SATURATION (PStr (strip (replace_percent s)))"
    have "strip_saturation d = Inr ?dd"
      using Some v c by (simp add: strip_saturation_def getitem_def bindE_def)
    moreover have "map fst ?dd = map fst d"
      using kin by (rule keys_setitem)
    moreover have "\<forall>k. map_of ?dd k = map_option (stripped_value k) (map_of d k)"
    proof
      fix k show "map_of ?dd k = map_option (stripped_value k) (map_of d k)"
      proof (cases "k = SATURATION")
        case True
        then show ?thesis using Some v by (simp add: map_of_setitem stripped_value_def)
      next
        case False
        then show ?thesis using other [OF False] by (simp add: map_of_setitem)
      qed
    qed
    ultimately show ?thesis by blast
  next
    case False
    then have "strip_saturation d = Inr d"
      using Some c by (cases v) (simp_all add: strip_saturation_def getitem_def bindE_def)
    moreover have "\<forall>k. map_of d k = map_option (stripped_value k) (map_of d k)"
    proof
      fix k show "map_of d k = map_option (stripped_value k) (map_of d k)"
      proof (cases "k = SATURATION")
        case True
        then show ?thesis using Some False by (simp add: stripped_value_not_str)
      next
        case False
        then show ?thesis by (rule other)
      qed
    qed
    ultimately show ?thesis by blast
  qed
qed

lemma coerce_key_result:
  "\<exists>dd'. coerce_key fl dd k = Inr dd' \<and> map fst dd' = map fst dd \<and>
         (\<forall>k'. map_of dd' k' =
                (if k' = k then map_option (float_step fl) (map_of dd k) else map_of dd k'))"
proof (cases "map_of dd k")
  case None
  then have "coerce_key fl dd k = Inr dd"
    by (simp add: coerce_key_def contains_map_of)
  then show ?thesis using None by auto
next
  case (Some v)
  then have c: "contains dd k" by (simp add: contains_map_of)
  then have kin: "k \<in> set (map fst dd)" by (simp add: contains_def)
  show ?thesis
  proof (cases "v = PNone \<or> v = PStr ''''")
    case True
    then have "coerce_key fl dd k = Inr dd"
      using Some c by (auto simp: coerce_key_def getitem_def bindE_def)
    moreover have "float_step fl v = v" using True by (auto simp: float_step_def)
    ultimately show ?thesis using Some by auto
  next
    case False
    show ?thesis
    proof (cases "fl v")
      case None
      then have "coerce_key fl dd k = Inr dd"
        using Some c False by (auto simp: coerce_key_def getitem_def bindE_def)
      moreover have "float_step fl v = v" using False None by (auto simp: float_step_def)
      ultimately show ?thesis using Some by auto
    next
      case (Some x)
      have "coerce_key fl dd k = Inr (setitem dd k (PFloat x))"
        using \<open>map_of dd k = Some v\<close> Some c False
        by (auto simp: coerce_key_def getitem_def bindE_def)
      moreover have "float_step fl v = PFloat x" using False Some by (auto simp: float_step_def)
      moreover have "map fst (setitem dd k (PFloat x)) = map fst dd"
        using kin by (rule keys_setitem)
      ultimately show ?thesis using \<open>map_of dd k = Some v\<close> by (auto simp: map_of_setitem)
    qed
  qed
qed

lemma coerce_loop_result:
  "distinct ks \<Longrightarrow>
   \<exists>r. foldE (coerce_key fl) dd ks = Inr r \<and> map fst r = map fst dd \<and>
       (\<forall>k. map_of r k =
             (if k \<in> set ks then map_option (float_step fl) (map_of dd k) else map_of dd k))"
proof (induction ks arbitrary: dd)
  case Nil
  then show ?case by simp
next
  case (Cons a ks)
  obtain dd' where s: "coerce_key fl dd a = Inr dd'" "map fst dd' = map fst dd"
    and v: "\<And>k'. map_of dd' k' =
                (if k' = a then map_option (float_step fl) (map_of dd a) else map_of dd k')"
    using coerce_key_result [of fl dd a] by blast
  from Cons.prems have d: "distinct ks" and na: "a \<notin> set ks" by simp_all
  obtain r where r: "foldE (coerce_key fl) dd' ks = Inr r" "map fst r = map fst dd'"
    and rv: "\<And>k. map_of r k =
             (if k \<in> set ks then map_option (float_step fl) (map_of dd' k) else map_of dd' k)"
    using Cons.IH [OF d, of dd'] by blast
  have "foldE (coerce_key fl) dd (a # ks) = Inr r"
    using s r by (simp add: bindE_def)
  moreover have "map fst r = map fst dd" using r s by simp
  moreover have "\<forall>k. map_of r k =
      (if k \<in> set (a # ks) then map_option (float_step fl) (map_of dd k) else map_of dd k)"
    using rv v na by auto
  ultimately show ?case by blast
qed

lemma distinct_numeric_keys: "distinct numeric_keys"
  by (simp add: numeric_keys_def GROSS_WT_def SATURATION_def CBR_def)

lemma coerce_numeric_result:
  "\<exists>r. coerce_numeric fl d = Inr r \<and> map fst r = map fst d \<and>
       (\<forall>k. map_of r k =
             (if k \<in> set numeric_keys then map_option (coerced_value fl k) (map_of d k)
              else map_of d k))"
proof -
  obtain dd where s: "strip_saturation d = Inr dd" "map fst dd = map fst d"
    and sv: "\<And>k. map_of dd k = map_option (stripped_value k) (map_of d k)"
    using strip_saturation_result [of d] by blast
  obtain r where r: "foldE (coerce_key fl) dd numeric_keys = Inr r" "map fst r = map fst dd"
    and rv: "\<And>k. map_of r k =
             (if k \<in> set numeric_keys then map_option (float_step fl) (map_of dd k)
              else map_of dd k)"
    using coerce_loop_result [OF distinct_numeric_keys, of fl dd] by blast
  have "coerce_numeric fl d = Inr r"
    using s r by (simp add: coerce_numeric_def bindE_def)
  moreover have "map fst r = map fst d" using r s by simp
  moreover have "\<forall>k. map_of r k =
             (if k \<in> set numeric_keys then map_option (coerced_value fl k) (map_of d k)
              else map_of d k)"
  proof
    fix k
    show "map_of r k =
             (if k \<in> set numeric_keys then map_option (coerced_value fl k) (map_of d k)
              else map_of d k)"
    proof (cases "k \<in> set numeric_keys")
      case True
      then show ?thesis
        using rv [of k] sv [of k] by (cases "map_of d k") (simp_all add: coerced_value_def)
    next
      case False
      then have "k \<noteq> SATURATION" by (auto simp: numeric_keys_def)
      then show ?thesis
        using False rv [of k] sv [of k]
        by (simp add: stripped_value_other option.map_ident_strong)
    qed
  qed
  ultimately show ?thesis by blast
qed

section \<open>Facts about tables\<close>

lemma set_uniq_acc: "set (uniq_acc seen xs) = set xs - set seen"
  by (induction xs arbitrary: seen) auto

lemma distinct_uniq_acc: "distinct (uniq_acc seen xs)"
  by (induction xs arbitrary: seen) (auto simp: set_uniq_acc)

lemma set_unique: "set (unique xs) = set xs"
  by (simp add: unique_def set_uniq_acc)

lemma distinct_unique: "distinct (unique xs)"
  by (simp add: unique_def distinct_uniq_acc)

lemma cell_at_map_of:
  assumes "set (map fst d) \<subseteq> set cols"
  shows "cell_at cols (map (map_of d) cols) c = map_of d c"
proof (cases "c \<in> set cols")
  case True
  then show ?thesis by (simp add: cell_at_def map_of_zip_map)
next
  case False
  then have "c \<notin> set (map fst d)" using assms by blast
  then have "map_of d c = None" by (simp add: map_of_eq_None_iff)
  then show ?thesis using False by (simp add: cell_at_def map_of_zip_map)
qed

lemma reindex_DataFrame:
  "reindex (DataFrame ds) cols = Inr \<lparr>columns = cols, cells = map (\<lambda>d. map (map_of d) cols) ds\<rparr>"
proof -
  let ?keys = "unique (concat (map (map fst) ds))"
  have sub: "d \<in> set ds \<Longrightarrow> set (map fst d) \<subseteq> set ?keys" for d
    by (auto simp: set_unique)
  have "map (\<lambda>r. map (cell_at ?keys r) cols) (map (\<lambda>d. map (map_of d) ?keys) ds)
        = map (\<lambda>d. map (map_of d) cols) ds"
    using sub by (simp add: cell_at_map_of)
  then show ?thesis
    by (simp add: reindex_def DataFrame_def Let_def distinct_unique)
qed

lemma mapE_coerce_numeric:
  "\<exists>rs. mapE (coerce_numeric fl) rows = Inr rs \<and>
        list_all2 (\<lambda>d r. map fst r = map fst d \<and> (\<forall>c. map_of r c = reconciled_cell fl d c)) rows rs"
proof (induction rows)
  case Nil
  then show ?case by simp
next
  case (Cons d rows)
  obtain r where r: "coerce_numeric fl d = Inr r" "map fst r = map fst d"
    "\<forall>c. map_of r c = reconciled_cell fl d c"
    using coerce_numeric_result [of fl d] by (auto simp: reconciled_cell_def)
  obtain rs where rs: "mapE (coerce_numeric fl) rows = Inr rs"
    "list_all2 (\<lambda>d r. map fst r = map fst d \<and> (\<forall>c. map_of r c = reconciled_cell fl d c)) rows rs"
    using Cons.IH by blast
  have "mapE (coerce_numeric fl) (d # rows) = Inr (r # rs)"
    using r rs by (simp add: bindE_def)
  then show ?case using r rs by simp
qed

lemma reconcile_result:
  "reconcile fl num_cols cat_cols rows =
     Inr \<lparr>columns = num_cols @ cat_cols,
          cells = map (\<lambda>d. map (reconciled_cell fl d) (num_cols @ cat_cols)) rows\<rparr>"
proof -
  obtain rs where rs: "mapE (coerce_numeric fl) rows = Inr rs"
    and all: "list_all2 (\<lambda>d r. map fst r = map fst d \<and> (\<forall>c. map_of r c = reconciled_cell fl d c)) rows rs"
    using mapE_coerce_numeric [of fl rows] by blast
  have "map (\<lambda>r. map (map_of r) cols) rs = map (\<lambda>d. map (reconciled_cell fl d) cols) rows" for cols
    using all by (induction rows rs rule: list_all2_induct) simp_all
  from this [of "num_cols @ cat_cols"] show ?thesis
    using rs by (simp add: reconcile_def bindE_def reindex_DataFrame del: map_append)
qed

lemma build_input_df_body:
  "build_input_df fl p d =
     bindE (get_expected_input_columns p) (\<lambda>(num_cols, cat_cols).
       bindE (coerce_numeric fl d) (\<lambda>r. reindex (DataFrame [r]) (num_cols @ cat_cols)))"
  by (simp add: build_input_df_def coerce_numeric_def strip_saturation_def coerce_key_def [abs_def]
      numeric_keys_def GROSS_WT_def SATURATION_def CBR_def bindE_def
      split: sum.splits prod.splits)

lemma build_input_df_reconcile:
  "build_input_df fl p d =
     bindE (get_expected_input_columns p) (\<lambda>(num_cols, cat_cols).
       reconcile fl num_cols cat_cols [d])"
  by (simp add: build_input_df_body reconcile_def bindE_def split: sum.splits prod.splits)

section \<open>Facts about the schema and the handlers\<close>

lemma schema_step_simps:
  "schema_step (name, tr, cols) (n, c) =
     (if name = ''num'' then (cols, c) else if name = ''cat'' then (n, cols) else (n, c))"
  by (simp add: schema_step_def)

lemma fold_schema_step:
  "fold schema_step ts (n, c) = (n', c') \<Longrightarrow>
     (''cat'' \<notin> set (map fst ts) \<longrightarrow> c' = c) \<and> (''num'' \<notin> set (map fst ts) \<longrightarrow> n' = n)"
proof (induction ts arbitrary: n c)
  case Nil
  then show ?case by simp
next
  case (Cons t ts)
  obtain name tr cols where t: "t = (name, tr, cols)" by (cases t) auto
  show ?case
  proof (cases "name = ''num''")
    case True
    then have "fold schema_step ts (cols, c) = (n', c')"
      using Cons.prems t by (simp add: schema_step_simps)
    from Cons.IH [OF this] show ?thesis using True t by simp
  next
    case False
    show ?thesis
    proof (cases "name = ''cat''")
      case True
      then have "fold schema_step ts (n, cols) = (n', c')"
        using Cons.prems t by (simp add: schema_step_simps)
      from Cons.IH [OF this] show ?thesis using True t by simp
    next
      case nc: False
      then have "fold schema_step ts (n, c) = (n', c')"
        using Cons.prems t False by (simp add: schema_step_simps)
      from Cons.IH [OF this] show ?thesis using False nc t by simp
    qed
  qed
qed

lemma render_labels_fails: "render_labels pred = Inl (NameError ''np'')"
  by (simp add: render_labels_def lookup_global_def app_globals_def bindE_def)

lemma coerced_rows_table:
  assumes "mapE (coerce_numeric fl) rows = Inr rs"
  shows "reindex (DataFrame rs) (num_cols @ cat_cols) =
     Inr \<lparr>columns = num_cols @ cat_cols,
          cells = map (\<lambda>d. map (reconciled_cell fl d) (num_cols @ cat_cols)) rows\<rparr>"
  using reconcile_result [of fl num_cols cat_cols rows] assms
  by (simp add: reconcile_def bindE_def)

lemma infer_calls_predict:
  assumes "reindex (DataFrame rs) (num_cols @ cat_cols) = Inr X"
  shows "PredictCall X \<in> set (fst (infer p num_cols cat_cols rs))"
  using assms
  by (simp add: infer_def split: sum.splits prod.splits)

lemma infer_name_error:
  assumes "reindex (DataFrame rs) (num_cols @ cat_cols) = Inr X"
    and "predict p X = Inr pred"
  shows "infer p num_cols cat_cols rs = ([PredictCall X], Inl (NameError ''np''))"
  using assms by (simp add: infer_def render_labels_fails)

lemma on_predict_name_error:
  assumes "expand_rows cat_cols sel base = ([], Inr rows)"
    and "predict p \<lparr>columns = num_cols @ cat_cols,
                    cells = map (\<lambda>d. map (reconciled_cell fl d) (num_cols @ cat_cols)) rows\<rparr>
         = Inr pred"
  shows "on_predict fl p num_cols cat_cols base sel =
     [PredictCall \<lparr>columns = num_cols @ cat_cols,
                   cells = map (\<lambda>d. map (reconciled_cell fl d) (num_cols @ cat_cols)) rows\<rparr>,
      ErrorShown (NameError ''np'')]"
proof -
  obtain rs where rs: "mapE (coerce_numeric fl) rows = Inr rs"
    using mapE_coerce_numeric [of fl rows] by blast
  note X = coerced_rows_table [OF rs, of num_cols cat_cols]
  have "infer p num_cols cat_cols rs =
      ([PredictCall \<lparr>columns = num_cols @ cat_cols,
                   cells = map (\<lambda>d. map (reconciled_cell fl d) (num_cols @ cat_cols)) rows\<rparr>],
       Inl (NameError ''np''))"
    using X assms(2) by (rule infer_name_error)
  then show ?thesis
    using assms(1) rs by (simp add: on_predict_def)
qed

lemma on_predict_calls_predict:
  assumes "expand_rows cat_cols sel base = ([], Inr rows)"
  shows "\<exists>X. PredictCall X \<in> set (on_predict fl p num_cols cat_cols base sel)"
proof -
  obtain rs where rs: "mapE (coerce_numeric fl) rows = Inr rs"
    using mapE_coerce_numeric [of fl rows] by blast
  note X = coerced_rows_table [OF rs, of num_cols cat_cols]
  let ?X = "\<lparr>columns = num_cols @ cat_cols,
          cells = map (\<lambda>d. map (reconciled_cell fl d) (num_cols @ cat_cols)) rows\<rparr>"
  obtain evs r where i: "infer p num_cols cat_cols rs = (evs, r)"
    by (cases "infer p num_cols cat_cols rs") auto
  have "PredictCall ?X \<in> set (fst (infer p num_cols cat_cols rs))"
    using X by (rule infer_calls_predict)
  then have "PredictCall ?X \<in> set evs" using i by simp
  then have "PredictCall ?X \<in> set (on_predict fl p num_cols cat_cols base sel)"
    using assms rs i by (cases r) (simp_all add: on_predict_def)
  then show ?thesis by (rule exI)
qed

section \<open>Facts about the dropdown choices\<close>

lemma column_choices_sorted: "sorted (column_choices fs ser)"
  by (simp add: column_choices_def Let_def)

lemma column_choices_distinct: "distinct (column_choices fs ser)"
  by (simp add: column_choices_def Let_def distinct_unique)

lemma column_choices_nonempty: "'''' \<notin> set (column_choices fs ser)"
  by (simp add: column_choices_def Let_def)

lemma set_update_cases:
  "(k', v') \<in> set (AList.update k v al) \<Longrightarrow> (k' = k \<and> v' = v) \<or> (k', v') \<in> set al"
  by (induction al) (auto split: if_splits)

text \<open>What holds of every entry of a choice table.\<close>

lemma choices_step_entries:
  assumes "choices_step fs df acc col = Inr acc'"
    and "(k, vs) \<in> set acc'"
  shows "(k = col \<and> (\<exists>ser. vs = column_choices fs ser)) \<or> (k, vs) \<in> set acc"
proof (cases "col \<in> set (map fst df)")
  case False
  then show ?thesis using assms by (simp add: choices_step_def)
next
  case True
  then obtain ser where "select_column df col = Inr ser"
    and "acc' = AList.update col (column_choices fs ser) acc"
    using assms(1) by (cases "select_column df col") (simp_all add: choices_step_def bindE_def)
  then show ?thesis using assms(2) set_update_cases by fastforce
qed

lemma foldE_choices_entries:
  assumes "foldE (choices_step fs df) acc cols = Inr r"
    and "(k, vs) \<in> set r"
  shows "(k \<in> set cols \<and> (\<exists>ser. vs = column_choices fs ser)) \<or> (k, vs) \<in> set acc"
  using assms
proof (induction cols arbitrary: acc)
  case Nil
  then show ?case by simp
next
  case (Cons col cols)
  then obtain acc' where s: "choices_step fs df acc col = Inr acc'"
    and f: "foldE (choices_step fs df) acc' cols = Inr r"
    by (cases "choices_step fs df acc col") (simp_all add: bindE_def)
  from Cons.IH [OF f Cons.prems(2)]
  show ?case
  proof
    assume "k \<in> set cols \<and> (\<exists>ser. vs = column_choices fs ser)"
    then show ?thesis by simp
  next
    assume "(k, vs) \<in> set acc'"
    from choices_step_entries [OF s this] show ?thesis by auto
  qed
qed

lemma select_column_single:
  assumes "col \<in> set (map fst df)"
    and "length (filter (\<lambda>hc. fst hc = col) df) \<le> 1"
  shows "\<exists>ser. select_column df col = Inr ser"
proof -
  have "filter (\<lambda>hc. fst hc = col) df \<noteq> []"
    using assms(1) by (auto simp: filter_empty_conv)
  then obtain hc where "filter (\<lambda>hc. fst hc = col) df = [hc]"
    using assms(2) by (cases "filter (\<lambda>hc. fst hc = col) df") auto
  then show ?thesis by (simp add: select_column_def)
qed

lemma foldE_choices_keys:
  assumes "distinct cols"
    and "set cols \<inter> set (map fst acc) = {}"
    and "\<forall>col \<in> set cols. length (filter (\<lambda>hc. fst hc = col) df) \<le> 1"
  shows "\<exists>r. foldE (choices_step fs df) acc cols = Inr r \<and>
             map fst r = map fst acc @ filter (\<lambda>col. col \<in> set (map fst df)) cols"
  using assms
proof (induction cols arbitrary: acc)
  case Nil
  then show ?case by simp
next
  case (Cons col cols)
  have d: "distinct cols" and nin: "col \<notin> set cols" using Cons.prems(1) by simp_all
  have fresh: "col \<notin> set (map fst acc)" using Cons.prems(2) by auto
  have rest: "\<forall>c \<in> set cols. length (filter (\<lambda>hc. fst hc = c) df) \<le> 1"
    using Cons.prems(3) by simp
  show ?case
  proof (cases "col \<in> set (map fst df)")
    case False
    then have s: "choices_step fs df acc col = Inr acc" by (simp add: choices_step_def)
    have "set cols \<inter> set (map fst acc) = {}" using Cons.prems(2) by auto
    from Cons.IH [OF d this rest] obtain r where
      "foldE (choices_step fs df) acc cols = Inr r"
      "map fst r = map fst acc @ filter (\<lambda>col. col \<in> set (map fst df)) cols"
      by blast
    then show ?thesis using s False by (simp add: bindE_def)
  next
    case True
    have "length (filter (\<lambda>hc. fst hc = col) df) \<le> 1" using Cons.prems(3) by simp
    from select_column_single [OF True this] obtain ser where
      ser: "select_column df col = Inr ser" by blast
    let ?acc = "AList.update col (column_choices fs ser) acc"
    have s: "choices_step fs df acc col = Inr ?acc"
      using True ser by (simp add: choices_step_def bindE_def)
    have keys: "map fst ?acc = map fst acc @ [col]"
      using fresh by (simp add: update_keys)
    then have "set cols \<inter> set (map fst ?acc) = {}"
      using Cons.prems(2) nin by auto
    from Cons.IH [OF d this rest] obtain r where
      "foldE (choices_step fs df) ?acc cols = Inr r"
      "map fst r = map fst ?acc @ filter (\<lambda>col. col \<in> set (map fst df)) cols"
      by blast
    then show ?thesis using s True keys by (simp add: bindE_def)
  qed
qed

lemma distinct_target_columns: "distinct target_columns"
  by (simp add: target_columns_def)

section \<open>The claims\<close>

subsection \<open>Numeric coercion\<close>

text \<open>
  Claim C10. For every input row, whatever mix of strings, numbers and \<^verbatim>\<open>None\<close> it holds,
  and whatever the builtin \<^verbatim>\<open>float\<close> does on its values, the numeric coercion returns a
  row and raises nothing; the row has the keys of the input, in the same order; and
  every key other than "Gross Wt. (lbs)", "Degree of saturation" and "CBR" maps to the
  value it had in the input.
\<close>

theorem coerce_numeric_total:
  "\<exists>r. coerce_numeric fl d = Inr r \<and> map fst r = map fst d \<and>
       (\<forall>k. k \<notin> set numeric_keys \<longrightarrow> map_of r k = map_of d k)"
  using coerce_numeric_result [of fl d] by auto

theorem coerce_numeric_total_witness:
  "''Aircraft Name'' \<notin> set numeric_keys \<and>
   (\<exists>r. coerce_numeric float_sample
           [(''Aircraft Name'', PStr ''B737''), (''CBR'', PStr ''6''), (''Note'', PNone)] = Inr r \<and>
        map fst r = [''Aircraft Name'', ''CBR'', ''Note''] \<and>
        map_of r ''Aircraft Name'' = Some (PStr ''B737''))"
proof -
  have h: "''Aircraft Name'' \<notin> set numeric_keys"
    by (simp add: numeric_keys_def GROSS_WT_def SATURATION_def CBR_def)
  obtain r where
    "coerce_numeric float_sample
       [(''Aircraft Name'', PStr ''B737''), (''CBR'', PStr ''6''), (''Note'', PNone)] = Inr r"
    "map fst r = map fst [(''Aircraft Name'', PStr ''B737''), (''CBR'', PStr ''6''),
                          (''Note'', PNone :: int pyval)]"
    "\<forall>k. k \<notin> set numeric_keys \<longrightarrow>
         map_of r k = map_of [(''Aircraft Name'', PStr ''B737''), (''CBR'', PStr ''6''),
                              (''Note'', PNone)] k"
    using coerce_numeric_total
      [of float_sample "[(''Aircraft Name'', PStr ''B737''), (''CBR'', PStr ''6''), (''Note'', PNone)]"]
    by blast
  then show ?thesis using h by auto
qed

text \<open>
  Claim C4, as stated: a known-numeric field whose value cannot be converted to a float
  keeps its original value, the saturation field included. This fails for the
  saturation field: lines 173-174 store the string without its percent signs and
  surrounding whitespace before the conversion is tried, so that "abc%", which
  \<^verbatim>\<open>float\<close> rejects, comes out as "abc".
\<close>

theorem coerce_numeric_saturation_counterexample:
  "float_sample (PStr ''abc%'') = None \<and>
   coerce_numeric float_sample [(''Degree of saturation'', PStr ''abc%'')]
     = Inr [(''Degree of saturation'', PStr ''abc'')]"
  by (simp add: float_sample_def coerce_numeric_def strip_saturation_def coerce_key_def
      numeric_keys_def GROSS_WT_def SATURATION_def CBR_def contains_def getitem_def
      setitem_def bindE_def strip_def replace_percent_def py_isspace_def is_digit_def)

text \<open>
  Claim C4, amended. For every input row and every known-numeric field: the coercion
  raises nothing; when the value the conversion is tried on (for a string in the
  saturation field, the string without its percent signs and surrounding whitespace;
  otherwise the field's value) cannot be converted to a float, the field holds that
  value in the output row; this is the original value for "Gross Wt. (lbs)" and "CBR",
  and for a saturation value that is not a string.
\<close>

theorem coerce_numeric_failure:
  assumes "k \<in> set numeric_keys" and "map_of d k = Some v"
    and "fl (stripped_value k v) = None"
  shows "\<exists>r. coerce_numeric fl d = Inr r \<and>
             map_of r k = Some (stripped_value k v) \<and>
             (k \<noteq> SATURATION \<or> (\<forall>s. v \<noteq> PStr s) \<longrightarrow> map_of r k = Some v)"
proof -
  obtain r where r: "coerce_numeric fl d = Inr r"
    and v: "map_of r k = map_option (coerced_value fl k) (map_of d k)"
    using coerce_numeric_result [of fl d] assms(1) by auto
  have "coerced_value fl k v = stripped_value k v"
    using assms(3) by (simp add: coerced_value_def float_step_def)
  then have "map_of r k = Some (stripped_value k v)"
    using v assms(2) by simp
  moreover have "k \<noteq> SATURATION \<or> (\<forall>s. v \<noteq> PStr s) \<Longrightarrow> stripped_value k v = v"
    using stripped_value_other stripped_value_not_str by blast
  ultimately show ?thesis using r by auto
qed

theorem coerce_numeric_failure_witness:
  "CBR \<in> set numeric_keys \<and>
   map_of [(CBR, PStr ''n/a''), (GROSS_WT, PStr ''12'')] CBR = Some (PStr ''n/a'' :: int pyval) \<and>
   float_sample (stripped_value CBR (PStr ''n/a'')) = None \<and>
   (\<exists>r. coerce_numeric float_sample [(CBR, PStr ''n/a''), (GROSS_WT, PStr ''12'')] = Inr r \<and>
        map_of r CBR = Some (PStr ''n/a''))"
proof -
  have h1: "CBR \<in> set numeric_keys" by (simp add: numeric_keys_def)
  have ne: "CBR \<noteq> SATURATION" by (simp add: CBR_def SATURATION_def)
  have h2: "map_of [(CBR, PStr ''n/a''), (GROSS_WT, PStr ''12'')] CBR = Some (PStr ''n/a'' :: int pyval)"
    by simp
  have sv: "stripped_value CBR (PStr ''n/a'' :: int pyval) = PStr ''n/a''"
    using ne by (simp add: stripped_value_def)
  have h3: "float_sample (stripped_value CBR (PStr ''n/a'')) = None"
    unfolding sv
    by (simp add: float_sample_def strip_def py_isspace_def is_digit_def)
  show ?thesis
    using coerce_numeric_failure
      [where k = CBR and d = "[(CBR, PStr ''n/a''), (GROSS_WT, PStr ''12'')]"
         and v = "PStr ''n/a''" and fl = float_sample]
      h1 h2 h3 ne
    by auto
qed

subsection \<open>Reconciliation\<close>

text \<open>
  Claim C1. For every schema (numeric columns, categorical columns) and all input
  rows, whatever the order of their keys, the table reconciled before inference (the
  batch script's, lines 183-187, and the single-row script's \<^verbatim>\<open>build_input_df\<close>) has
  exactly the columns numeric ++ categorical, in that order. A cell holds the row's
  (coerced) value for its column, so a row field that is no schema column is dropped, a
  schema column the row lacks holds a missing value, and two rows with the same fields
  in a different key order give the same cells.
\<close>

theorem reconciled_table_columns:
  "(\<exists>X. reconcile fl num_cols cat_cols rows = Inr X \<and>
        columns X = num_cols @ cat_cols \<and>
        cells X = map (\<lambda>d. map (reconciled_cell fl d) (num_cols @ cat_cols)) rows) \<and>
   (get_expected_input_columns p = Inr (num_cols, cat_cols) \<longrightarrow>
      build_input_df fl p d =
        Inr \<lparr>columns = num_cols @ cat_cols,
             cells = [map (reconciled_cell fl d) (num_cols @ cat_cols)]\<rparr>) \<and>
   (\<forall>c. c \<notin> set (map fst d) \<longrightarrow> reconciled_cell fl d c = None) \<and>
   (\<forall>d'. map_of d' = map_of d \<longrightarrow> reconciled_cell fl d' = reconciled_cell fl d)"
proof -
  have "\<exists>X. reconcile fl num_cols cat_cols rows = Inr X \<and>
        columns X = num_cols @ cat_cols \<and>
        cells X = map (\<lambda>d. map (reconciled_cell fl d) (num_cols @ cat_cols)) rows"
    by (simp add: reconcile_result)
  moreover have "get_expected_input_columns p = Inr (num_cols, cat_cols) \<longrightarrow>
      build_input_df fl p d =
        Inr \<lparr>columns = num_cols @ cat_cols,
             cells = [map (reconciled_cell fl d) (num_cols @ cat_cols)]\<rparr>"
    by (simp add: build_input_df_reconcile reconcile_result bindE_def)
  moreover have "\<forall>c. c \<notin> set (map fst d) \<longrightarrow> reconciled_cell fl d c = None"
    by (simp add: reconciled_cell_def map_of_eq_None_iff)
  moreover have "\<forall>d'. map_of d' = map_of d \<longrightarrow> reconciled_cell fl d' = reconciled_cell fl d"
    by (auto simp: reconciled_cell_def fun_eq_iff)
  ultimately show ?thesis by blast
qed

theorem reconciled_table_columns_witness:
  "get_expected_input_columns sample_pipeline = Inr ([''CBR''], [''Aircraft Name'']) \<and>
   ''CBR'' \<notin> set (map fst [(''Aircraft Name'', PStr ''B737''), (''Extra'', PStr ''x'' :: int pyval)]) \<and>
   map_of [(''Extra'', PStr ''x''), (''Aircraft Name'', PStr ''B737'' :: int pyval)]
     = map_of [(''Aircraft Name'', PStr ''B737''), (''Extra'', PStr ''x'')] \<and>
   build_input_df float_sample sample_pipeline
       [(''Aircraft Name'', PStr ''B737''), (''Extra'', PStr ''x'')]
     = Inr \<lparr>columns = [''CBR'', ''Aircraft Name''], cells = [ [None, Some (PStr ''B737'')] ]\<rparr> \<and>
   reconcile float_sample [''CBR''] [''Aircraft Name'']
       [ [(''Extra'', PStr ''x''), (''Aircraft Name'', PStr ''B737'')] ]
     = Inr \<lparr>columns = [''CBR'', ''Aircraft Name''], cells = [ [None, Some (PStr ''B737'')] ]\<rparr>"
proof -
  let ?d = "[(''Aircraft Name'', PStr ''B737''), (''Extra'', PStr ''x'' :: int pyval)]"
  let ?d' = "[(''Extra'', PStr ''x''), (''Aircraft Name'', PStr ''B737'' :: int pyval)]"
  have h1: "get_expected_input_columns sample_pipeline = Inr ([''CBR''], [''Aircraft Name''])"
    by (simp add: get_expected_input_columns_def sample_pipeline_def named_step_def
        transformers_def schema_step_def bindE_def)
  have h2: "''CBR'' \<notin> set (map fst ?d)" by simp
  have h3: "map_of ?d' = map_of ?d" by (auto simp: fun_eq_iff)
  have nk: "''Aircraft Name'' \<notin> set numeric_keys"
    by (simp add: numeric_keys_def GROSS_WT_def SATURATION_def CBR_def)
  have c1: "reconciled_cell float_sample ?d ''Aircraft Name'' = Some (PStr ''B737'')"
    using nk by (simp add: reconciled_cell_def)
  note t = reconciled_table_columns
    [where fl = float_sample and num_cols = "[''CBR'']" and cat_cols = "[''Aircraft Name'']"
       and p = sample_pipeline and d = ?d and rows = "[?d']"]
  have c2: "reconciled_cell float_sample ?d ''CBR'' = None"
    by (rule t [THEN conjunct2, THEN conjunct2, THEN conjunct1, rule_format, OF h2])
  have c3: "reconciled_cell float_sample ?d' = reconciled_cell float_sample ?d"
    by (rule t [THEN conjunct2, THEN conjunct2, THEN conjunct2, rule_format, OF h3])
  have row: "map (reconciled_cell float_sample ?d) [''CBR'', ''Aircraft Name'']
             = [None, Some (PStr ''B737'')]"
    by (simp only: list.map c1 c2)
  have "build_input_df float_sample sample_pipeline ?d =
        Inr \<lparr>columns = [''CBR''] @ [''Aircraft Name''],
             cells = [map (reconciled_cell float_sample ?d) ([''CBR''] @ [''Aircraft Name''])]\<rparr>"
    by (rule t [THEN conjunct2, THEN conjunct1, rule_format, OF h1])
  then have b: "build_input_df float_sample sample_pipeline ?d =
        Inr \<lparr>columns = [''CBR'', ''Aircraft Name''], cells = [ [None, Some (PStr ''B737'')] ]\<rparr>"
    by (simp only: list.map c1 c2 append.simps)
  obtain X where X: "reconcile float_sample [''CBR''] [''Aircraft Name''] [?d'] = Inr X"
    and Xc: "columns X = [''CBR''] @ [''Aircraft Name'']"
    and Xr: "cells X = map (\<lambda>d. map (reconciled_cell float_sample d)
                                  ([''CBR''] @ [''Aircraft Name''])) [?d']"
    using t [THEN conjunct1] by (elim exE conjE)
  have "cells X = [ [None, Some (PStr ''B737'')] ]"
    by (simp only: Xr list.map c3 c1 c2 append.simps)
  moreover have "columns X = [''CBR'', ''Aircraft Name'']"
    by (simp only: Xc append.simps)
  ultimately have "X = \<lparr>columns = [''CBR'', ''Aircraft Name''],
                         cells = [ [None, Some (PStr ''B737'')] ]\<rparr>"
    by (cases X) simp
  then have r: "reconcile float_sample [''CBR''] [''Aircraft Name''] [?d']
     = Inr \<lparr>columns = [''CBR'', ''Aircraft Name''], cells = [ [None, Some (PStr ''B737'')] ]\<rparr>"
    using X by (simp only:)
  show ?thesis
    by (intro conjI h1 h2 h3 b r)
qed

text \<open>
  Claim C8. For every schema whose numeric columns include "Degree of saturation" and
  every row whose value for that field is the string "85%", the reconciled table holds,
  in that row and in each column of that name, the float that \<^verbatim>\<open>float("85")\<close> returns,
  which is 85.0: the percent sign is removed before the conversion. This holds for the
  batch script's table and for \<^verbatim>\<open>build_input_df\<close>.
\<close>

theorem saturation_percent_float:
  assumes "SATURATION \<in> set num_cols"
    and "i < length rows"
    and "map_of (rows ! i) SATURATION = Some (PStr ''85%'')"
    and "fl (PStr ''85'') = Some x"
  shows "(\<exists>X. reconcile fl num_cols cat_cols rows = Inr X \<and>
              SATURATION \<in> set (columns X) \<and>
              (\<forall>j < length (columns X).
                  columns X ! j = SATURATION \<longrightarrow> cells X ! i ! j = Some (PFloat x))) \<and>
         (get_expected_input_columns p = Inr (num_cols, cat_cols) \<longrightarrow>
            (\<exists>X. build_input_df fl p (rows ! i) = Inr X \<and>
                 SATURATION \<in> set (columns X) \<and>
                 (\<forall>j < length (columns X).
                     columns X ! j = SATURATION \<longrightarrow> cells X ! 0 ! j = Some (PFloat x))))"
proof -
  have s: "strip (replace_percent ''85%'') = ''85''"
    by (simp add: strip_def replace_percent_def py_isspace_def)
  have "coerced_value fl SATURATION (PStr ''85%'') = PFloat x"
    using assms(4) by (simp add: coerced_value_def stripped_value_def float_step_def s)
  then have c: "reconciled_cell fl (rows ! i) SATURATION = Some (PFloat x)"
    using assms(3) by (simp add: reconciled_cell_def numeric_keys_def)
  let ?cols = "num_cols @ cat_cols"
  have cell: "j < length ?cols \<Longrightarrow> ?cols ! j = SATURATION \<Longrightarrow>
      map (reconciled_cell fl (rows ! i)) ?cols ! j = Some (PFloat x)" for j
    using c by (simp del: map_append)
  have "reconcile fl num_cols cat_cols rows =
     Inr \<lparr>columns = ?cols, cells = map (\<lambda>d. map (reconciled_cell fl d) ?cols) rows\<rparr>"
    by (rule reconcile_result)
  then have A: "\<exists>X. reconcile fl num_cols cat_cols rows = Inr X \<and>
              SATURATION \<in> set (columns X) \<and>
              (\<forall>j < length (columns X).
                  columns X ! j = SATURATION \<longrightarrow> cells X ! i ! j = Some (PFloat x))"
    using assms(1,2) cell by (simp del: map_append)
  have B: "get_expected_input_columns p = Inr (num_cols, cat_cols) \<longrightarrow>
            (\<exists>X. build_input_df fl p (rows ! i) = Inr X \<and>
                 SATURATION \<in> set (columns X) \<and>
                 (\<forall>j < length (columns X).
                     columns X ! j = SATURATION \<longrightarrow> cells X ! 0 ! j = Some (PFloat x)))"
    using assms(1) cell
    by (simp add: build_input_df_reconcile reconcile_result bindE_def del: map_append)
  from A B show ?thesis by blast
qed

theorem saturation_percent_float_witness:
  "SATURATION \<in> set [SATURATION, CBR] \<and>
   (0::nat) < length [ [(SATURATION, PStr ''85%''), (CBR, PInt 6 :: int pyval)] ] \<and>
   map_of ([ [(SATURATION, PStr ''85%''), (CBR, PInt 6 :: int pyval)] ] ! 0) SATURATION
     = Some (PStr ''85%'') \<and>
   float_sample (PStr ''85'') = Some 85 \<and>
   (\<exists>X. reconcile float_sample [SATURATION, CBR] [AIRCRAFT]
           [ [(SATURATION, PStr ''85%''), (CBR, PInt 6)] ] = Inr X \<and>
        columns X = [SATURATION, CBR, AIRCRAFT] \<and>
        cells X ! 0 ! 0 = Some (PFloat 85))"
proof -
  let ?rows = "[ [(SATURATION, PStr ''85%''), (CBR, PInt 6 :: int pyval)] ]"
  have h1: "SATURATION \<in> set [SATURATION, CBR]" by simp
  have h2: "(0::nat) < length ?rows" by simp
  have h3: "map_of (?rows ! 0) SATURATION = Some (PStr ''85%'')" by simp
  have h4: "float_sample (PStr ''85'') = Some 85"
    by (simp add: float_sample_def strip_def py_isspace_def is_digit_def digits_value_def)
  obtain X where X: "reconcile float_sample [SATURATION, CBR] [AIRCRAFT] ?rows = Inr X"
    and m: "SATURATION \<in> set (columns X)"
    and v: "\<forall>j < length (columns X).
                  columns X ! j = SATURATION \<longrightarrow> cells X ! 0 ! j = Some (PFloat 85)"
    using saturation_percent_float
      [where num_cols = "[SATURATION, CBR]" and i = 0 and rows = ?rows and fl = float_sample
         and x = 85 and cat_cols = "[AIRCRAFT]", OF h1 h2 h3 h4, THEN conjunct1]
    by (elim exE conjE)
  have cols: "columns X = [SATURATION, CBR, AIRCRAFT]"
    using X by (simp add: reconcile_result) (cases X, simp)
  have "0 < length (columns X)" "columns X ! 0 = SATURATION"
    by (simp_all add: cols)
  with v have c: "cells X ! 0 ! 0 = Some (PFloat 85)" by blast
  have "\<exists>X. reconcile float_sample [SATURATION, CBR] [AIRCRAFT] ?rows = Inr X \<and>
        columns X = [SATURATION, CBR, AIRCRAFT] \<and>
        cells X ! 0 ! 0 = Some (PFloat 85)"
    by (intro exI [of _ X] conjI X cols c)
  then show ?thesis
    by (intro conjI h1 h2 h3 h4)
qed

text \<open>
  Claim C9, as stated: the single-row script's reconciliation produces the same table
  as the batch script's, and the single-row flow is a strict subset of the batch flow.
  The second part fails. On the same pipeline and the same row (CBR 6, aircraft
  "A320") the single-row handler shows the label "Overload", asks for the
  probabilities and shows the input table, and the batch handler shows none of these:
  its run ends in the error of line 191. Nor is this difference the only one: the
  label the single-row script shows, "Overload", is none of the labels the batch
  script's mapping produces ("Overloaded", "Safe"), and for a classifier without the
  method \<^verbatim>\<open>predict_proba\<close> the batch script's lines 194-196 make no call where the
  single-row script's lines 128-132 do call it and ignore the failure.
\<close>

theorem single_row_flow_not_subset_counterexample:
  "on_predict_single float_sample sample_pipeline
       [(''CBR'', PInt 6), (''Aircraft Name'', PStr ''A320'')]
     = [PredictCall \<lparr>columns = [''CBR'', ''Aircraft Name''],
                     cells = [ [Some (PFloat 6), Some (PStr ''A320'')] ]\<rparr>,
        SuccessShown ''Overload'',
        PredictProbaCall \<lparr>columns = [''CBR'', ''Aircraft Name''],
                          cells = [ [Some (PFloat 6), Some (PStr ''A320'')] ]\<rparr>,
        DebugShown \<lparr>columns = [''CBR'', ''Aircraft Name''],
                    cells = [ [Some (PFloat 6), Some (PStr ''A320'')] ]\<rparr>] \<and>
   on_predict float_sample sample_pipeline [''CBR''] [''Aircraft Name'']
       [(''CBR'', PInt 6)] [''A320'']
     = [PredictCall \<lparr>columns = [''CBR'', ''Aircraft Name''],
                     cells = [ [Some (PFloat 6), Some (PStr ''A320'')] ]\<rparr>,
        ErrorShown (NameError ''np'')] \<and>
   ''Overload'' \<notin> set (numpy_where [1, 0, 1]) \<and>
   probabilities sample_pipeline_no_proba
       \<lparr>columns = [''CBR'', ''Aircraft Name''],
        cells = [ [Some (PFloat 6), Some (PStr ''A320'')] ]\<rparr>
     = ([], Inr None) \<and>
   show_probability sample_pipeline_no_proba
       \<lparr>columns = [''CBR'', ''Aircraft Name''],
        cells = [ [Some (PFloat 6), Some (PStr ''A320'')] ]\<rparr>
     = [PredictProbaCall \<lparr>columns = [''CBR'', ''Aircraft Name''],
                          cells = [ [Some (PFloat 6), Some (PStr ''A320'')] ]\<rparr>]"
proof -
  let ?row = "[(''CBR'', PInt 6), (''Aircraft Name'', PStr ''A320'' :: int pyval)]"
  let ?X = "\<lparr>columns = [''CBR'', ''Aircraft Name''],
            cells = [ [Some (PFloat 6), Some (PStr ''A320'' :: int pyval)] ]\<rparr>"
  have f: "float_sample (PInt 6) = Some 6" by (simp add: float_sample_def)
  have c1: "reconciled_cell float_sample ?row ''CBR'' = Some (PFloat 6)"
    using f
    by (simp add: reconciled_cell_def numeric_keys_def CBR_def coerced_value_def
        stripped_value_def float_step_def)
  have c2: "reconciled_cell float_sample ?row ''Aircraft Name'' = Some (PStr ''A320'')"
    by (simp add: reconciled_cell_def numeric_keys_def CBR_def GROSS_WT_def SATURATION_def)
  have s1: "get_expected_input_columns sample_pipeline = Inr ([''CBR''], [''Aircraft Name''])"
    by (simp add: get_expected_input_columns_def sample_pipeline_def named_step_def
        transformers_def schema_step_def bindE_def)
  have "build_input_df float_sample sample_pipeline ?row =
      Inr \<lparr>columns = [''CBR''] @ [''Aircraft Name''],
           cells = map (\<lambda>d. map (reconciled_cell float_sample d)
                          ([''CBR''] @ [''Aircraft Name''])) [?row]\<rparr>"
    by (simp only: build_input_df_reconcile s1 bindE_def sum.case prod.case reconcile_result)
  then have b: "build_input_df float_sample sample_pipeline ?row = Inr ?X"
    by (simp only: list.map append.simps c1 c2)
  have p: "predict sample_pipeline X = Inr [1, 0, 1]" for X
    by (simp add: sample_pipeline_def)
  have pp: "predict_proba sample_pipeline X = Inr []" for X
    by (simp add: sample_pipeline_def)
  have single: "on_predict_single float_sample sample_pipeline ?row
     = [PredictCall ?X, SuccessShown ''Overload'', PredictProbaCall ?X, DebugShown ?X]"
    by (simp add: on_predict_single_def b p pp bindE_def first_label_def label_of_def
        show_probability_def)
  have row: "map (\<lambda>ac. setitem [(''CBR'', PInt 6)] AIRCRAFT (PStr ac)) [''A320''] = [?row]"
    by (simp add: setitem_def AIRCRAFT_def)
  have e: "expand_rows [''Aircraft Name''] [''A320''] [(''CBR'', PInt 6 :: int pyval)]
           = ([], Inr [?row])"
    by (simp add: expand_rows_def AIRCRAFT_def setitem_def)
  have "on_predict float_sample sample_pipeline [''CBR''] [''Aircraft Name'']
          [(''CBR'', PInt 6)] [''A320''] =
     [PredictCall \<lparr>columns = [''CBR''] @ [''Aircraft Name''],
                   cells = map (\<lambda>d. map (reconciled_cell float_sample d)
                                  ([''CBR''] @ [''Aircraft Name''])) [?row]\<rparr>,
      ErrorShown (NameError ''np'')]"
    using e p by (rule on_predict_name_error)
  then have batch: "on_predict float_sample sample_pipeline [''CBR''] [''Aircraft Name'']
          [(''CBR'', PInt 6)] [''A320''] = [PredictCall ?X, ErrorShown (NameError ''np'')]"
    by (simp only: list.map append.simps c1 c2)
  have lab: "''Overload'' \<notin> set (numpy_where [1, 0, 1])"
    by (simp add: numpy_where_def)
  have pr: "probabilities sample_pipeline_no_proba ?X = ([], Inr None)"
    by (simp add: probabilities_def named_step_def sample_pipeline_no_proba_def)
  have sp: "show_probability sample_pipeline_no_proba ?X = [PredictProbaCall ?X]"
    by (simp add: show_probability_def sample_pipeline_no_proba_def)
  show ?thesis by (intro conjI single batch lab pr sp)
qed

text \<open>
  Claim C9, amended. For every pipeline and every input row, \<^verbatim>\<open>build_input_df\<close> of the
  single-row script returns what the batch script's reconciliation returns on that one
  row (\<^verbatim>\<open>coerce_numeric\<close>, then the one-row table reindexed to numeric ++ categorical
  columns), with the schema read from the pipeline; when the schema cannot be read, it
  raises that error. Nothing is said of the two flows beyond the reconciliation.
\<close>

theorem build_input_df_is_batch_reconciliation:
  "build_input_df fl p d =
     (case get_expected_input_columns p of
        Inl e \<Rightarrow> Inl e
      | Inr (num_cols, cat_cols) \<Rightarrow>
          (case coerce_numeric fl d of
             Inl e \<Rightarrow> Inl e
           | Inr r \<Rightarrow> reindex (DataFrame [r]) (num_cols @ cat_cols)))
   \<and> build_input_df fl p d =
     (case get_expected_input_columns p of
        Inl e \<Rightarrow> Inl e
      | Inr (num_cols, cat_cols) \<Rightarrow> reconcile fl num_cols cat_cols [d])"
  by (simp add: build_input_df_body reconcile_def bindE_def split: sum.splits prod.splits)

theorem build_input_df_is_batch_reconciliation_witness:
  "build_input_df float_sample sample_pipeline [(''CBR'', PStr '' 6 '')]
     = reconcile float_sample [''CBR''] [''Aircraft Name''] [ [(''CBR'', PStr '' 6 '')] ] \<and>
   reconcile float_sample [''CBR''] [''Aircraft Name''] [ [(''CBR'', PStr '' 6 '')] ]
     = Inr \<lparr>columns = [''CBR'', ''Aircraft Name''], cells = [ [Some (PFloat 6), None] ]\<rparr>"
proof -
  have h1: "get_expected_input_columns sample_pipeline = Inr ([''CBR''], [''Aircraft Name''])"
    by (simp add: get_expected_input_columns_def sample_pipeline_def named_step_def
        transformers_def schema_step_def bindE_def)
  have f: "float_sample (PStr '' 6 '') = Some 6"
    by (simp add: float_sample_def strip_def py_isspace_def is_digit_def digits_value_def)
  have "reconciled_cell float_sample [(''CBR'', PStr '' 6 '')] ''CBR'' = Some (PFloat 6)"
    using f
    by (simp add: reconciled_cell_def numeric_keys_def CBR_def coerced_value_def
        stripped_value_def SATURATION_def float_step_def)
  moreover have "reconciled_cell float_sample [(''CBR'', PStr '' 6 '')] ''Aircraft Name'' = None"
    by (simp add: reconciled_cell_def numeric_keys_def CBR_def GROSS_WT_def SATURATION_def)
  ultimately have r: "reconcile float_sample [''CBR''] [''Aircraft Name''] [ [(''CBR'', PStr '' 6 '')] ]
     = Inr \<lparr>columns = [''CBR'', ''Aircraft Name''], cells = [ [Some (PFloat 6), None] ]\<rparr>"
    by (simp add: reconcile_result)
  have "build_input_df float_sample sample_pipeline [(''CBR'', PStr '' 6 '')] =
     (case get_expected_input_columns sample_pipeline of
        Inl e \<Rightarrow> Inl e
      | Inr (num_cols, cat_cols) \<Rightarrow>
          reconcile float_sample num_cols cat_cols [ [(''CBR'', PStr '' 6 '')] ])"
    using build_input_df_is_batch_reconciliation
      [of float_sample sample_pipeline "[(''CBR'', PStr '' 6 '')]"]
    by (rule conjunct2)
  then have "build_input_df float_sample sample_pipeline [(''CBR'', PStr '' 6 '')]
     = reconcile float_sample [''CBR''] [''Aircraft Name''] [ [(''CBR'', PStr '' 6 '')] ]"
    by (simp only: h1 sum.case prod.case)
  then show ?thesis using r by (rule conjI)
qed

subsection \<open>Batch expansion\<close>

text \<open>
  Claim C2. For every non-empty selection of aircraft identifiers and every shared base
  row: when the categorical columns include "Aircraft Name", the expansion produces as
  many rows as identifiers, the i-th row holding the i-th identifier in its "Aircraft
  Name" field and the base row's value in every other field, so that any two rows agree
  on every field but "Aircraft Name"; when the categorical columns do not include
  "Aircraft Name", it produces the one row equal to the base row.
\<close>

theorem expand_rows_per_aircraft:
  "(AIRCRAFT \<in> set cat_cols \<and> aircraft_selected \<noteq> [] \<longrightarrow>
      (\<exists>rows. expand_rows cat_cols aircraft_selected row_base = ([], Inr rows) \<and>
          length rows = length aircraft_selected \<and>
          (\<forall>i < length rows.
              map_of (rows ! i) AIRCRAFT = Some (PStr (aircraft_selected ! i)) \<and>
              (\<forall>k. k \<noteq> AIRCRAFT \<longrightarrow> map_of (rows ! i) k = map_of row_base k)) \<and>
          (\<forall>i < length rows. \<forall>j < length rows. \<forall>k.
              k \<noteq> AIRCRAFT \<longrightarrow> map_of (rows ! i) k = map_of (rows ! j) k))) \<and>
   (AIRCRAFT \<notin> set cat_cols \<longrightarrow>
      expand_rows cat_cols aircraft_selected row_base = ([], Inr [row_base]))"
  by (simp add: expand_rows_def map_of_setitem)

theorem expand_rows_per_aircraft_witness:
  "AIRCRAFT \<in> set [''Subgrade soil type'', AIRCRAFT] \<and>
   [''A320'', ''B737'', ''B777''] \<noteq> [] \<and>
   (\<exists>rows. expand_rows [''Subgrade soil type'', AIRCRAFT] [''A320'', ''B737'', ''B777'']
              [(CBR, PInt 6 :: int pyval)] = ([], Inr rows) \<and>
           length rows = 3 \<and>
           map_of (rows ! 2) AIRCRAFT = Some (PStr ''B777'') \<and>
           map_of (rows ! 2) CBR = Some (PInt 6)) \<and>
   AIRCRAFT \<notin> set [''Subgrade soil type''] \<and>
   expand_rows [''Subgrade soil type''] [''A320'', ''B737'', ''B777''] [(CBR, PInt 6 :: int pyval)]
     = ([], Inr [ [(CBR, PInt 6)] ])"
proof -
  let ?sel = "[''A320'', ''B737'', ''B777'']"
  let ?base = "[(CBR, PInt 6 :: int pyval)]"
  have h1: "AIRCRAFT \<in> set [''Subgrade soil type'', AIRCRAFT]" by simp
  have h2: "?sel \<noteq> []" by simp
  have h3: "AIRCRAFT \<notin> set [''Subgrade soil type'']" by (simp add: AIRCRAFT_def)
  have ne: "CBR \<noteq> AIRCRAFT" by (simp add: CBR_def AIRCRAFT_def)
  obtain rows where r: "expand_rows [''Subgrade soil type'', AIRCRAFT] ?sel ?base = ([], Inr rows)"
    and len: "length rows = length ?sel"
    and v: "\<forall>i < length rows.
              map_of (rows ! i) AIRCRAFT = Some (PStr (?sel ! i)) \<and>
              (\<forall>k. k \<noteq> AIRCRAFT \<longrightarrow> map_of (rows ! i) k = map_of ?base k)"
    using expand_rows_per_aircraft
      [where cat_cols = "[''Subgrade soil type'', AIRCRAFT]" and aircraft_selected = ?sel
         and row_base = ?base, THEN conjunct1, rule_format, OF conjI, OF h1 h2]
    by (elim exE conjE)
  have l3: "length rows = 3" using len by simp
  then have "2 < length rows" by simp
  with v have v2: "map_of (rows ! 2) AIRCRAFT = Some (PStr (?sel ! 2))"
    "\<forall>k. k \<noteq> AIRCRAFT \<longrightarrow> map_of (rows ! 2) k = map_of ?base k"
    by blast+
  have a: "map_of (rows ! 2) AIRCRAFT = Some (PStr ''B777'')" using v2(1) by simp
  have b: "map_of (rows ! 2) CBR = Some (PInt 6)" using v2(2) ne by simp
  have e: "\<exists>rows. expand_rows [''Subgrade soil type'', AIRCRAFT] ?sel ?base = ([], Inr rows) \<and>
           length rows = 3 \<and>
           map_of (rows ! 2) AIRCRAFT = Some (PStr ''B777'') \<and>
           map_of (rows ! 2) CBR = Some (PInt 6)"
    by (intro exI [of _ rows] conjI r l3 a b)
  have s: "expand_rows [''Subgrade soil type''] ?sel ?base = ([], Inr [?base])"
    by (rule expand_rows_per_aircraft
      [where cat_cols = "[''Subgrade soil type'']" and aircraft_selected = ?sel
         and row_base = ?base, THEN conjunct2, rule_format, OF h3])
  show ?thesis by (intro conjI h1 h2 e h3 s)
qed

subsection \<open>Schema introspection\<close>

text \<open>
  Claim C6. For every pipeline whose step "prep" is a fitted column transformer, the
  schema is returned without an error; when no transformer triple is named "cat" the
  categorical column list is empty, and when none is named "num" the numeric column
  list is empty (so a pipeline with only a "num" triple has no categorical columns,
  and vice versa).
\<close>

theorem schema_missing_stage:
  assumes "map_of (named_steps p) ''prep'' = Some (ColumnTransformer ts)"
  shows "\<exists>num_cols cat_cols.
           get_expected_input_columns p = Inr (num_cols, cat_cols) \<and>
           (''cat'' \<notin> set (map fst ts) \<longrightarrow> cat_cols = []) \<and>
           (''num'' \<notin> set (map fst ts) \<longrightarrow> num_cols = [])"
proof -
  obtain n c where f: "fold schema_step ts ([], []) = (n, c)"
    by (cases "fold schema_step ts ([], [])") auto
  have "get_expected_input_columns p = Inr (n, c)"
    using assms f
    by (simp add: get_expected_input_columns_def named_step_def transformers_def bindE_def)
  then show ?thesis using fold_schema_step [OF f] by blast
qed

theorem schema_missing_stage_witness:
  "map_of (named_steps
      \<lparr>named_steps = [(''prep'', ColumnTransformer [(''num'', (), [''CBR'', ''Gross Wt. (lbs)''])])],
       predict = (\<lambda>X :: int table. Inr []), predict_proba = (\<lambda>X. Inr [])\<rparr>) ''prep''
     = Some (ColumnTransformer [(''num'', (), [''CBR'', ''Gross Wt. (lbs)''])]) \<and>
   ''cat'' \<notin> set (map fst [(''num'', (), [''CBR'', ''Gross Wt. (lbs)''])]) \<and>
   (\<exists>num_cols.
      get_expected_input_columns
        \<lparr>named_steps = [(''prep'', ColumnTransformer [(''num'', (), [''CBR'', ''Gross Wt. (lbs)''])])],
         predict = (\<lambda>X :: int table. Inr []), predict_proba = (\<lambda>X. Inr [])\<rparr>
      = Inr (num_cols, []))"
proof -
  let ?ts = "[(''num'', (), [''CBR'', ''Gross Wt. (lbs)''])]"
  let ?p = "\<lparr>named_steps = [(''prep'', ColumnTransformer ?ts)],
       predict = (\<lambda>X :: int table. Inr []), predict_proba = (\<lambda>X. Inr [])\<rparr>"
  have h1: "map_of (named_steps ?p) ''prep'' = Some (ColumnTransformer ?ts)" by simp
  have h2: "''cat'' \<notin> set (map fst ?ts)" by simp
  obtain n c where g: "get_expected_input_columns ?p = Inr (n, c)"
    and c: "''cat'' \<notin> set (map fst ?ts) \<longrightarrow> c = []"
    using schema_missing_stage [of ?p ?ts, OF h1] by (elim exE conjE)
  from c h2 have "c = []" by (rule mp)
  with g have "get_expected_input_columns ?p = Inr (n, [])" by (simp only:)
  then have "\<exists>num_cols. get_expected_input_columns ?p = Inr (num_cols, [])" by (rule exI)
  then show ?thesis by (intro conjI h1 h2)
qed

subsection \<open>The Predict handler\<close>

text \<open>
  Claim C7. Whenever the categorical columns include "Aircraft Name" and no aircraft
  is selected, a submission shows the warning and ends the script run: the pipeline's
  \<^verbatim>\<open>predict\<close> and \<^verbatim>\<open>predict_proba\<close> are not called. The handler changes nothing of the
  session (it is a function of the pipeline, the schema and the inputs), so the session
  is ready for another submission: one with a non-empty selection does reach the
  pipeline's \<^verbatim>\<open>predict\<close>.
\<close>

theorem empty_selection_rejected:
  assumes "AIRCRAFT \<in> set cat_cols"
  shows "on_predict fl p num_cols cat_cols row_base []
           = [Warning ''Please select at least one aircraft.'', Stopped] \<and>
         (\<forall>X. PredictCall X \<notin> set (on_predict fl p num_cols cat_cols row_base []) \<and>
              PredictProbaCall X \<notin> set (on_predict fl p num_cols cat_cols row_base [])) \<and>
         (\<forall>sel. sel \<noteq> [] \<longrightarrow>
              (\<exists>X. PredictCall X \<in> set (on_predict fl p num_cols cat_cols row_base sel)))"
proof -
  have a: "on_predict fl p num_cols cat_cols row_base []
           = [Warning ''Please select at least one aircraft.'', Stopped]"
    using assms by (simp add: on_predict_def expand_rows_def)
  have c: "sel \<noteq> [] \<Longrightarrow>
      \<exists>X. PredictCall X \<in> set (on_predict fl p num_cols cat_cols row_base sel)" for sel
  proof -
    assume "sel \<noteq> []"
    then have "expand_rows cat_cols sel row_base =
        ([], Inr (map (\<lambda>ac. setitem row_base AIRCRAFT (PStr ac)) sel))"
      using assms by (simp add: expand_rows_def)
    then show ?thesis by (rule on_predict_calls_predict)
  qed
  show ?thesis using a c by simp
qed

theorem empty_selection_rejected_witness:
  "AIRCRAFT \<in> set [AIRCRAFT] \<and>
   on_predict float_sample sample_pipeline [CBR] [AIRCRAFT] [(CBR, PInt 6)] []
     = [Warning ''Please select at least one aircraft.'', Stopped] \<and>
   [''A320''] \<noteq> [] \<and>
   (\<exists>X. PredictCall X \<in> set (on_predict float_sample sample_pipeline [CBR] [AIRCRAFT]
                                 [(CBR, PInt 6)] [''A320'']))"
proof -
  have h1: "AIRCRAFT \<in> set [AIRCRAFT]" by simp
  have h2: "[''A320''] \<noteq> []" by simp
  note t = empty_selection_rejected
    [where cat_cols = "[AIRCRAFT]" and fl = float_sample and p = sample_pipeline
       and num_cols = "[CBR]" and row_base = "[(CBR, PInt 6)]", OF h1]
  have a: "on_predict float_sample sample_pipeline [CBR] [AIRCRAFT] [(CBR, PInt 6)] []
     = [Warning ''Please select at least one aircraft.'', Stopped]"
    by (rule t [THEN conjunct1])
  have b: "\<exists>X. PredictCall X \<in> set (on_predict float_sample sample_pipeline [CBR] [AIRCRAFT]
                                 [(CBR, PInt 6)] [''A320''])"
    by (rule t [THEN conjunct2, THEN conjunct2, rule_format, OF h2])
  show ?thesis by (intro conjI h1 a h2 b)
qed

text \<open>
  Claim C3. The rendered label of a row is to be the positive string exactly when the
  predicted label is 1. In the batch script line 191 computes the labels with
  \<^verbatim>\<open>np.where\<close>, but the script never imports numpy (lines 1-4 import io, joblib, pandas
  and streamlit only): for the labels \<open>[1, 0, 1]\<close>, as for any others, the line raises
  \<^verbatim>\<open>NameError\<close>, the handler shows "Prediction failed" and no label is rendered. Were
  \<^verbatim>\<open>np\<close> bound, the labels would be as the claim says, and the single-row script's
  conditional expression renders them so.
\<close>

theorem batch_labels_name_error:
  "render_labels [1, 0, 1] = Inl (NameError ''np'') \<and>
   on_predict float_sample sample_pipeline [''CBR''] [''Aircraft Name'']
       [(''CBR'', PInt 6)] [''A320'', ''B737'', ''B777'']
     = [PredictCall
          \<lparr>columns = [''CBR'', ''Aircraft Name''],
           cells = [ [Some (PFloat 6), Some (PStr ''A320'')],
                    [Some (PFloat 6), Some (PStr ''B737'')],
                    [Some (PFloat 6), Some (PStr ''B777'')] ]\<rparr>,
        ErrorShown (NameError ''np'')] \<and>
   numpy_where [1, 0, 1] = [''Overloaded'', ''Safe'', ''Overloaded''] \<and>
   map label_of [1, 0, 1] = [''Overload'', ''Safe'', ''Overload''] \<and>
   on_predict_single float_sample sample_pipeline [(''CBR'', PInt 6)]
     = [PredictCall \<lparr>columns = [''CBR'', ''Aircraft Name''], cells = [ [Some (PFloat 6), None] ]\<rparr>,
        SuccessShown ''Overload'',
        PredictProbaCall \<lparr>columns = [''CBR'', ''Aircraft Name''], cells = [ [Some (PFloat 6), None] ]\<rparr>,
        DebugShown \<lparr>columns = [''CBR'', ''Aircraft Name''], cells = [ [Some (PFloat 6), None] ]\<rparr>]"
proof -
  let ?base = "[(''CBR'', PInt 6 :: int pyval)]"
  let ?sel = "[''A320'', ''B737'', ''B777'']"
  let ?rows = "map (\<lambda>ac. setitem ?base AIRCRAFT (PStr ac)) ?sel"
  have e: "expand_rows [''Aircraft Name''] ?sel ?base = ([], Inr ?rows)"
    by (simp add: expand_rows_def AIRCRAFT_def)
  have p: "predict sample_pipeline X = Inr [1, 0, 1]" for X
    by (simp add: sample_pipeline_def)
  have f: "float_sample (PInt 6) = Some 6" by (simp add: float_sample_def)
  have cbr: "reconciled_cell float_sample (setitem ?base AIRCRAFT (PStr ac)) ''CBR'' = Some (PFloat 6)" for ac
    using f
    by (simp add: reconciled_cell_def numeric_keys_def CBR_def coerced_value_def
        stripped_value_def float_step_def map_of_setitem AIRCRAFT_def)
  have ac: "reconciled_cell float_sample (setitem ?base AIRCRAFT (PStr ac)) ''Aircraft Name''
            = Some (PStr ac)" for ac
    by (simp add: reconciled_cell_def numeric_keys_def CBR_def GROSS_WT_def SATURATION_def
        map_of_setitem AIRCRAFT_def)
  have cells: "map (\<lambda>d. map (reconciled_cell float_sample d) [''CBR'', ''Aircraft Name'']) ?rows
      = [ [Some (PFloat 6), Some (PStr ''A320'')],
         [Some (PFloat 6), Some (PStr ''B737'')],
         [Some (PFloat 6), Some (PStr ''B777'')] ]"
    by (simp only: list.map cbr ac)
  have "on_predict float_sample sample_pipeline [''CBR''] [''Aircraft Name''] ?base ?sel =
     [PredictCall \<lparr>columns = [''CBR''] @ [''Aircraft Name''],
                   cells = map (\<lambda>d. map (reconciled_cell float_sample d)
                                  ([''CBR''] @ [''Aircraft Name''])) ?rows\<rparr>,
      ErrorShown (NameError ''np'')]"
    using e p by (rule on_predict_name_error)
  then have h: "on_predict float_sample sample_pipeline [''CBR''] [''Aircraft Name''] ?base ?sel
     = [PredictCall
          \<lparr>columns = [''CBR'', ''Aircraft Name''],
           cells = [ [Some (PFloat 6), Some (PStr ''A320'')],
                    [Some (PFloat 6), Some (PStr ''B737'')],
                    [Some (PFloat 6), Some (PStr ''B777'')] ]\<rparr>,
        ErrorShown (NameError ''np'')]"
    by (simp only: cells append.simps)
  have n: "numpy_where [1, 0, 1] = [''Overloaded'', ''Safe'', ''Overloaded'']"
    by (simp add: numpy_where_def)
  have l: "map label_of [1, 0, 1] = [''Overload'', ''Safe'', ''Overload'']"
    by (simp add: label_of_def)
  have s1: "get_expected_input_columns sample_pipeline = Inr ([''CBR''], [''Aircraft Name''])"
    by (simp add: get_expected_input_columns_def sample_pipeline_def named_step_def
        transformers_def schema_step_def bindE_def)
  have s2: "reconciled_cell float_sample ?base ''CBR'' = Some (PFloat 6)"
    using f
    by (simp add: reconciled_cell_def numeric_keys_def CBR_def coerced_value_def
        stripped_value_def float_step_def)
  have s3: "reconciled_cell float_sample ?base ''Aircraft Name'' = None"
    by (simp add: reconciled_cell_def numeric_keys_def CBR_def GROSS_WT_def SATURATION_def)
  have "build_input_df float_sample sample_pipeline ?base =
      Inr \<lparr>columns = [''CBR''] @ [''Aircraft Name''],
           cells = map (\<lambda>d. map (reconciled_cell float_sample d)
                          ([''CBR''] @ [''Aircraft Name''])) [?base]\<rparr>"
    by (simp only: build_input_df_reconcile s1 bindE_def sum.case prod.case reconcile_result)
  then have b: "build_input_df float_sample sample_pipeline ?base =
      Inr \<lparr>columns = [''CBR'', ''Aircraft Name''], cells = [ [Some (PFloat 6), None] ]\<rparr>"
    by (simp only: list.map append.simps s2 s3)
  have pp: "predict_proba sample_pipeline X = Inr []" for X
    by (simp add: sample_pipeline_def)
  have o: "on_predict_single float_sample sample_pipeline ?base
     = [PredictCall \<lparr>columns = [''CBR'', ''Aircraft Name''], cells = [ [Some (PFloat 6), None] ]\<rparr>,
        SuccessShown ''Overload'',
        PredictProbaCall \<lparr>columns = [''CBR'', ''Aircraft Name''], cells = [ [Some (PFloat 6), None] ]\<rparr>,
        DebugShown \<lparr>columns = [''CBR'', ''Aircraft Name''], cells = [ [Some (PFloat 6), None] ]\<rparr>]"
    by (simp add: on_predict_single_def b p pp bindE_def first_label_def label_of_def
        show_probability_def)
  show ?thesis by (intro conjI render_labels_fails h n l o)
qed

subsection \<open>Dropdown choices\<close>

text \<open>
  Claim C5, as stated: for every uploaded spreadsheet content the Choice Table has
  sorted, duplicate-free value lists without empty strings under keys of the fixed set,
  and target columns absent from the sheet are omitted without error. This fails for a
  readable sheet whose headers are "Aircraft Name" and " Aircraft Name": line 37 trims
  them to the same name, line 41 then selects two columns from which no series is
  built, and the function raises. The sheet has no "Subgrade soil type" column, yet
  that column is not omitted without error: no Choice Table is returned at all.
\<close>

theorem choice_table_duplicate_header_counterexample:
  "try_except (read_excel_sheet duplicate_header_workbook ''data'')
      (\<lambda>_. read_excel_first duplicate_header_workbook) = Inr duplicate_header_frame \<and>
   ''Subgrade soil type''
     \<notin> set (map (\<lambda>hc. strip (py_str str_int (fst hc))) duplicate_header_frame) \<and>
   extract_choices_from_excel str_int duplicate_header_workbook
     = Inl (ValueError ''Data must be 1-dimensional'')"
  by (simp add: duplicate_header_workbook_def duplicate_header_frame_def
      extract_choices_from_excel_def try_except_def read_excel_sheet_def bindE_def
      py_str_def strip_def py_isspace_def target_columns_def choices_step_def
      select_column_def)

text \<open>
  Claim C5, amended. For every uploaded spreadsheet: whenever a Choice Table is
  returned, each of its keys is one of "Aircraft Name", "Subgrade soil type" and
  "Subgrade Categories (FAA)", and each of its value lists is sorted in the
  lexicographic order of strings, has no duplicate and does not contain the empty
  string. When a sheet is read and no target column's name occurs twice among its
  trimmed headers, the table is returned without an error and its keys are the target
  columns the sheet has, in the fixed order: a target column absent from the sheet is
  omitted.
\<close>

theorem choice_table_sorted_unique:
  "(extract_choices_from_excel fs upload = Inr choices \<longrightarrow>
      (\<forall>col vals. (col, vals) \<in> set choices \<longrightarrow>
          col \<in> set target_columns \<and> sorted vals \<and> distinct vals \<and> '''' \<notin> set vals)) \<and>
   (try_except (read_excel_sheet upload ''data'') (\<lambda>_. read_excel_first upload) = Inr df0 \<and>
    (\<forall>col \<in> set target_columns.
        length (filter (\<lambda>hc. strip (py_str fs (fst hc)) = col) df0) \<le> 1) \<longrightarrow>
      (\<exists>table. extract_choices_from_excel fs upload = Inr table \<and>
           map fst table =
             filter (\<lambda>col. col \<in> set (map (\<lambda>hc. strip (py_str fs (fst hc))) df0))
               target_columns))"
proof (intro conjI impI allI)
  fix col vals
  assume e: "extract_choices_from_excel fs upload = Inr choices"
    and m: "(col, vals) \<in> set choices"
  from e obtain df where "foldE (choices_step fs df) [] target_columns = Inr choices"
    by (cases "try_except (read_excel_sheet upload ''data'') (\<lambda>_. read_excel_first upload)")
       (simp_all add: extract_choices_from_excel_def bindE_def Let_def)
  from foldE_choices_entries [OF this m]
  have c: "col \<in> set target_columns" and "\<exists>ser. vals = column_choices fs ser"
    by simp_all
  then obtain ser where v: "vals = column_choices fs ser" by blast
  show "col \<in> set target_columns" by (rule c)
  show "sorted vals" unfolding v by (rule column_choices_sorted)
  show "distinct vals" unfolding v by (rule column_choices_distinct)
  show "'''' \<notin> set vals" unfolding v by (rule column_choices_nonempty)
next
  assume a: "try_except (read_excel_sheet upload ''data'') (\<lambda>_. read_excel_first upload) = Inr df0 \<and>
    (\<forall>col \<in> set target_columns.
        length (filter (\<lambda>hc. strip (py_str fs (fst hc)) = col) df0) \<le> 1)"
  let ?df = "map (\<lambda>(c, col_cells). (strip (py_str fs c), col_cells)) df0"
  have fl: "filter (\<lambda>hc. fst hc = col) ?df
            = map (\<lambda>(c, col_cells). (strip (py_str fs c), col_cells))
                (filter (\<lambda>hc. strip (py_str fs (fst hc)) = col) df0)" for col
    by (induction df0) auto
  have once: "\<forall>col \<in> set target_columns. length (filter (\<lambda>hc. fst hc = col) ?df) \<le> 1"
    using a by (simp add: fl)
  have hd: "map fst ?df = map (\<lambda>hc. strip (py_str fs (fst hc))) df0"
    by (induction df0) auto
  from foldE_choices_keys [OF distinct_target_columns _ once, of "[]" fs]
  obtain r where r: "foldE (choices_step fs ?df) [] target_columns = Inr r"
    and k0: "map fst r = filter (\<lambda>col. col \<in> set (map fst ?df)) target_columns"
    by auto
  have k: "map fst r =
      filter (\<lambda>col. col \<in> set (map (\<lambda>hc. strip (py_str fs (fst hc))) df0)) target_columns"
    using k0 by (simp only: hd)
  have "extract_choices_from_excel fs upload = Inr r"
    using a r by (simp add: extract_choices_from_excel_def bindE_def Let_def)
  then show "\<exists>table. extract_choices_from_excel fs upload = Inr table \<and>
           map fst table =
             filter (\<lambda>col. col \<in> set (map (\<lambda>hc. strip (py_str fs (fst hc))) df0))
               target_columns"
    using k by (intro exI [of _ r] conjI)
qed

theorem choice_table_sorted_unique_witness:
  "extract_choices_from_excel str_int sample_workbook
     = Inr [(''Aircraft Name'', [''A320'', ''B737''])] \<and>
   ''Aircraft Name'' \<in> set target_columns \<and>
   sorted [''A320'', ''B737''] \<and> distinct [''A320'', ''B737''] \<and>
   '''' \<notin> set [''A320'', ''B737''] \<and>
   try_except (read_excel_sheet sample_workbook ''data'') (\<lambda>_. read_excel_first sample_workbook)
     = Inr sample_frame \<and>
   (\<exists>table. extract_choices_from_excel str_int sample_workbook = Inr table \<and>
            map fst table = [''Aircraft Name''])"
proof -
  have e: "extract_choices_from_excel str_int sample_workbook
     = Inr [(''Aircraft Name'', [''A320'', ''B737''])]"
    by code_simp
  have m: "(''Aircraft Name'', [''A320'', ''B737'']) \<in> set [(''Aircraft Name'', [''A320'', ''B737''])]"
    by simp
  note p = choice_table_sorted_unique
    [where fs = str_int and upload = sample_workbook
       and choices = "[(''Aircraft Name'', [''A320'', ''B737''])]" and ?df0.0 = sample_frame,
     THEN conjunct1, rule_format, OF e m]
  have r: "try_except (read_excel_sheet sample_workbook ''data'')
             (\<lambda>_. read_excel_first sample_workbook) = Inr sample_frame"
    by (simp add: try_except_def read_excel_sheet_def sample_workbook_def)
  have once: "\<forall>col \<in> set target_columns.
        length (filter (\<lambda>hc. strip (py_str str_int (fst hc)) = col) sample_frame) \<le> 1"
    by (simp add: target_columns_def sample_frame_def py_str_def strip_def py_isspace_def)
  have present: "filter (\<lambda>col. col \<in> set (map (\<lambda>hc. strip (py_str str_int (fst hc))) sample_frame))
                   target_columns = [''Aircraft Name'']"
    by (simp add: target_columns_def sample_frame_def py_str_def strip_def py_isspace_def)
  obtain table where t: "extract_choices_from_excel str_int sample_workbook = Inr table"
    and k: "map fst table =
      filter (\<lambda>col. col \<in> set (map (\<lambda>hc. strip (py_str str_int (fst hc))) sample_frame))
        target_columns"
    using choice_table_sorted_unique
      [where fs = str_int and upload = sample_workbook
         and choices = "[(''Aircraft Name'', [''A320'', ''B737''])]" and ?df0.0 = sample_frame,
       THEN conjunct2, rule_format, OF conjI, OF r once]
    by (elim exE conjE)
  have "map fst table = [''Aircraft Name'']" using k by (simp only: present)
  with t have ex: "\<exists>table. extract_choices_from_excel str_int sample_workbook = Inr table \<and>
            map fst table = [''Aircraft Name'']"
    by (intro exI [of _ table] conjI)
  show ?thesis
    by (intro conjI e p [THEN conjunct1] p [THEN conjunct2, THEN conjunct1]
        p [THEN conjunct2, THEN conjunct2, THEN conjunct1]
        p [THEN conjunct2, THEN conjunct2, THEN conjunct2] r ex)
qed

end
